theory Spec2Isabelle
  imports Main "HOL-Library.AList" "HOL-Library.Sublist"
begin

section \<open>Data model of the voice session server (index.js)\<close>

text \<open>
  Request bodies are parsed JSON. \<open>JNum n\<close> is a JSON integer that a double holds
  exactly and JavaScript prints in plain decimal (magnitude below \<open>2^53\<close>); other
  numbers are not modelled. \<open>JObj\<close> lists the own properties of a parsed object,
  each key once.
\<close>

datatype json =
    JNull
  | JBool bool
  | JNum int
  | JStr string
  | JArr "json list"
  | JObj "(string \<times> json) list"

text \<open>
  A turn of the conversation is the object \<^verbatim>\<open>{role, content}\<close> pushed on
  \<^verbatim>\<open>conversationHistory\<close>. A session is the object stored by the init handler;
  \<open>gender\<close> and \<open>osce_id\<close> are the values of the request body, stored as they came.
\<close>

record msg =
  role :: string
  content :: string

type_synonym buffer = "nat list"

record session =
  gender :: json
  osce_id :: json
  conversationHistory :: "msg list"
  active :: bool
  lastActivity :: int

text \<open>
  \<^verbatim>\<open>sessions\<close> is a JavaScript Map: an insertion-ordered table with string keys.
  It is an association list here: \<^verbatim>\<open>sessions.get\<close> is \<open>map_of\<close>,
  \<^verbatim>\<open>sessions.set\<close> is \<open>AList.update\<close> (an existing key keeps its place, a new key
  goes to the end), \<^verbatim>\<open>sessions.delete\<close> is \<open>AList.delete\<close>. The handlers mutate
  the session object that the table holds, which is an update at the key in place.
\<close>

type_synonym store = "(string \<times> session) list"

text \<open>
  The value of a property read \<^verbatim>\<open>ELEVENLABS_VOICES[key]\<close>: a voice id of the
  table, a property that the object literal inherits from \<^verbatim>\<open>Object.prototype\<close>
  (a function or an object: truthy, and no voice id), or \<^verbatim>\<open>undefined\<close>.
\<close>

datatype voice = VoiceId string | InheritedProperty string | Undefined

text \<open>The calls that leave the process: database, transcription, chat, speech.\<close>

datatype call =
    OscesFindOne json
  | VpsFindOne json
  | Whisper string buffer
  | ChatCompletion "msg list"
  | TextToSpeech voice string

text \<open>
  What the handlers read from outside the session table while serving one request:
  the clock, the id generator, and the answers of the external services
  (\<open>Inl\<close> is the message of a thrown error). \<open>patientPromptHead\<close> is the fixed
  text of the template literal in \<^verbatim>\<open>getPatientPrompt\<close>, \<open>stringify\<close> is
  \<^verbatim>\<open>JSON.stringify(caseDescription, null, 2)\<close>, \<open>toBase64\<close> is
  \<^verbatim>\<open>Buffer.toString("base64")\<close>. A row of either table is its nullable
  \<^verbatim>\<open>case_description\<close> column.
\<close>

record env =
  now :: int
  uuidv4 :: string
  osces_findOne :: "json \<Rightarrow> string + string option option"
  vps_findOne :: "json \<Rightarrow> string + string option option"
  patientPromptHead :: string
  stringify :: "string option \<Rightarrow> string"
  whisper :: "string \<Rightarrow> buffer \<Rightarrow> string + string"
  chat :: "msg list \<Rightarrow> string + string"
  elevenlabs :: "voice \<Rightarrow> string \<Rightarrow> string + buffer"
  toBase64 :: "buffer \<Rightarrow> string"

text \<open>
  A response is \<^verbatim>\<open>res.status(c).json({success: false, message})\<close> or one of the
  success payloads (whose \<^verbatim>\<open>message\<close> text is fixed by the handler).
\<close>

datatype response =
    Failure nat string
  | InitOk string
  | StartOk string string
  | ProcessOk string string string
  | StopOk
  | HistoryOk "msg list"

record result =
  resp :: response
  sessions :: store
  calls :: "call list"

section \<open>JavaScript on parsed values\<close>

text \<open>
  \<^verbatim>\<open>const { p } = req.body\<close>. \<open>req.body\<close> is \<open>None\<close> when no body was parsed
  (it is then \<^verbatim>\<open>undefined\<close>); destructuring \<^verbatim>\<open>undefined\<close> or \<^verbatim>\<open>null\<close>
  throws a TypeError, whose message names the first property of the pattern.
  Otherwise the property is read: an object gives its own property of that name, and
  arrays and primitive values have no property of the names that the handlers read.
  For a multipart request the body is the object of the text fields of the form.
\<close>

definition quoted :: "string \<Rightarrow> string" where
  "quoted s = [CHR 0x27] @ s @ [CHR 0x27]"

definition destructure_error :: "string \<Rightarrow> string \<Rightarrow> string" where
  "destructure_error p v =
     ''Cannot destructure property '' @ quoted p @ '' of 'req.body' as it is '' @ v @ ''.''"

definition destructure :: "string \<Rightarrow> json option \<Rightarrow> string + json" where
  "destructure p body =
     (case body of
        None \<Rightarrow> Inl (destructure_error p ''undefined'')
      | Some JNull \<Rightarrow> Inl (destructure_error p ''null'')
      | Some b \<Rightarrow> Inr b)"

fun field :: "json \<Rightarrow> string \<Rightarrow> json option" where
  "field (JObj props) p = map_of props p"
| "field b p = None"

text \<open>The test \<^verbatim>\<open>!v\<close> is \<open>\<not> truthy v\<close>; an absent property is \<^verbatim>\<open>undefined\<close>.\<close>

fun truthy :: "json option \<Rightarrow> bool" where
  "truthy None = False"
| "truthy (Some JNull) = False"
| "truthy (Some (JBool b)) = b"
| "truthy (Some (JNum n)) = (n \<noteq> 0)"
| "truthy (Some (JStr s)) = (s \<noteq> [])"
| "truthy (Some (JArr xs)) = True"
| "truthy (Some (JObj props)) = True"

text \<open>
  The conversion of a value to a string, as a template literal and a property read
  \<^verbatim>\<open>o[v]\<close> do it; \<open>None\<close> is the TypeError "Cannot convert object to primitive
  value". An array joins the strings of its elements with commas, \<^verbatim>\<open>null\<close>
  elements giving the empty string. An object prints as \<^verbatim>\<open>[object Object]\<close>
  through the inherited \<^verbatim>\<open>toString\<close>; an own property \<^verbatim>\<open>toString\<close> of a parsed
  object shadows it with a value that cannot be called, and the conversion throws.
\<close>

fun decimal :: "nat \<Rightarrow> string" where
  "decimal n = (if n < 10 then [''0123456789'' ! n]
                else decimal (n div 10) @ [''0123456789'' ! (n mod 10)])"

definition number_toString :: "int \<Rightarrow> string" where
  "number_toString n = (if n < 0 then ''-'' @ decimal (nat (- n)) else decimal (nat n))"

fun join :: "string option list \<Rightarrow> string option" where
  "join [] = Some []"
| "join [x] = x"
| "join (x # y # ys) =
     (case x of
        None \<Rightarrow> None
      | Some s \<Rightarrow> (case join (y # ys) of None \<Rightarrow> None | Some r \<Rightarrow> Some (s @ '','' @ r)))"

fun js_toString :: "json \<Rightarrow> string option" where
  "js_toString JNull = Some ''null''"
| "js_toString (JBool b) = Some (if b then ''true'' else ''false'')"
| "js_toString (JNum n) = Some (number_toString n)"
| "js_toString (JStr s) = Some s"
| "js_toString (JArr xs) = join (map (\<lambda>x. if x = JNull then Some [] else js_toString x) xs)"
| "js_toString (JObj props) =
     (if map_of props ''toString'' \<noteq> None then None else Some ''[object Object]'')"

definition primitive_error :: string where
  "primitive_error = ''Cannot convert object to primitive value''"

text \<open>
  \<^verbatim>\<open>sessions.get(session_id)\<close>: the keys of the table are strings, and a value that
  is not a string equals none of them.
\<close>

fun sessions_get :: "store \<Rightarrow> json \<Rightarrow> (string \<times> session) option" where
  "sessions_get st (JStr sid) = (case map_of st sid of None \<Rightarrow> None | Some s \<Rightarrow> Some (sid, s))"
| "sessions_get st v = None"

section \<open>utils/voice.util.js\<close>

definition ELEVENLABS_VOICES :: "(string \<times> string) list" where
  "ELEVENLABS_VOICES = [(''Male'', ''pNInz6obpgDQGcFmaJgB''), (''Female'', ''EXAVITQu4vr4xnSDxMaL'')]"

definition Object_prototype_names :: "string list" where
  "Object_prototype_names =
     [''constructor'', ''__defineGetter__'', ''__defineSetter__'', ''hasOwnProperty'',
      ''__lookupGetter__'', ''__lookupSetter__'', ''isPrototypeOf'', ''propertyIsEnumerable'',
      ''toString'', ''valueOf'', ''__proto__'', ''toLocaleString'']"

definition voices_property :: "string \<Rightarrow> voice" where
  "voices_property key =
     (case map_of ELEVENLABS_VOICES key of
        Some v \<Rightarrow> VoiceId v
      | None \<Rightarrow> if key \<in> set Object_prototype_names then InheritedProperty key else Undefined)"

text \<open>
  \<^verbatim>\<open>ELEVENLABS_VOICES[gender] || ELEVENLABS_VOICES.Male\<close>, for the property key that
  \<^verbatim>\<open>gender\<close> converts to: every value other than \<^verbatim>\<open>undefined\<close> that the read
  can give is truthy.
\<close>

definition voiceId :: "string \<Rightarrow> voice" where
  "voiceId key =
     (if voices_property key \<noteq> Undefined then voices_property key else voices_property ''Male'')"

definition getPatientPrompt :: "env \<Rightarrow> string option \<Rightarrow> string" where
  "getPatientPrompt e caseDescription = patientPromptHead e @ stringify e caseDescription"

definition supportedFormats :: "string list" where
  "supportedFormats = [''webm'', ''wav'', ''mp3'', ''mp4'', ''m4a'']"

fun transcribe_formats :: "env \<Rightarrow> buffer \<Rightarrow> string list \<Rightarrow> (string + string) \<times> call list" where
  "transcribe_formats e audioBuffer [] = (Inl ''Failed to transcribe audio'', [])"
| "transcribe_formats e audioBuffer (format # rest) =
     (case whisper e format audioBuffer of
        Inr text \<Rightarrow> (Inr text, [Whisper format audioBuffer])
      | Inl formatError \<Rightarrow>
          if format = last supportedFormats
          then (Inl ''All audio formats failed. Audio data may be corrupted.'', [Whisper format audioBuffer])
          else (case transcribe_formats e audioBuffer rest of
                  (r, cs) \<Rightarrow> (r, Whisper format audioBuffer # cs)))"

definition transcribeAudio :: "env \<Rightarrow> buffer \<Rightarrow> (string + string) \<times> call list" where
  "transcribeAudio e audioBuffer = transcribe_formats e audioBuffer supportedFormats"

definition getChatCompletion :: "env \<Rightarrow> msg list \<Rightarrow> (string + string) \<times> call list" where
  "getChatCompletion e messages = (chat e messages, [ChatCompletion messages])"

text \<open>
  The default \<^verbatim>\<open>gender = "Male"\<close> of \<^verbatim>\<open>generateSpeech\<close> applies to an
  undefined argument only; the handlers pass the gender stored in the session. The
  property read converts it to a key inside the \<^verbatim>\<open>try\<close>; a TypeError there is
  rethrown by the \<^verbatim>\<open>catch\<close> before any request is sent.
\<close>

definition generateSpeech :: "env \<Rightarrow> string \<Rightarrow> json \<Rightarrow> (string + buffer) \<times> call list" where
  "generateSpeech e text g =
     (case js_toString g of
        None \<Rightarrow> (Inl primitive_error, [])
      | Some key \<Rightarrow> (elevenlabs e (voiceId key) text, [TextToSpeech (voiceId key) text]))"

section \<open>index.js: the sweeper and the handlers\<close>

definition maxAge :: int where
  "maxAge = 30 * 60 * 1000"

definition sweepInterval :: int where
  "sweepInterval = 5 * 60 * 1000"

text \<open>
  \<^verbatim>\<open>cleanupOldSessions\<close> visits the entries of the table in order and deletes the
  key of each entry it finds idle for longer than \<open>maxAge\<close>. Deleting the entry
  just visited does not disturb the visit of the remaining ones, so the loop runs
  over the entries as they were at its start.
\<close>

fun cleanup_entries :: "int \<Rightarrow> (string \<times> session) list \<Rightarrow> store \<Rightarrow> store" where
  "cleanup_entries t [] st = st"
| "cleanup_entries t ((sessionId, s) # entries) st =
     cleanup_entries t entries
       (if t - lastActivity s > maxAge then AList.delete sessionId st else st)"

definition cleanupOldSessions :: "int \<Rightarrow> store \<Rightarrow> store" where
  "cleanupOldSessions t st = cleanup_entries t st st"

text \<open>
  \<^verbatim>\<open>setInterval(cleanupOldSessions, 5 * 60 * 1000)\<close>, started at \<open>t0\<close>: the
  \<open>k\<close>-th sweep runs at \<open>t0 + k * sweepInterval\<close>.
\<close>

definition sweepInstant :: "int \<Rightarrow> nat \<Rightarrow> int" where
  "sweepInstant t0 k = t0 + int k * sweepInterval"

text \<open>
  The index of the first sweep that runs strictly after the instant \<open>T\<close>, for
  \<open>T\<close> not before the start of the timer.
\<close>

definition nextSweep :: "int \<Rightarrow> int \<Rightarrow> nat" where
  "nextSweep t0 T = nat ((T - t0) div sweepInterval) + 1"

definition failure :: "nat \<Rightarrow> string \<Rightarrow> store \<Rightarrow> call list \<Rightarrow> result" where
  "failure c m st cs = \<lparr>resp = Failure c m, sessions = st, calls = cs\<rparr>"

text \<open>
  Every handler body is inside \<^verbatim>\<open>try\<close>, and its \<^verbatim>\<open>catch\<close> answers 500 with the
  message of the error: that of a failed destructuring, of a failed conversion to a
  string, or of a failed external call. The init handler prints \<^verbatim>\<open>osce_id\<close> and
  \<^verbatim>\<open>gender\<close> in a template literal before it queries the database.
\<close>

definition voice_init :: "env \<Rightarrow> json option \<Rightarrow> store \<Rightarrow> result" where
  "voice_init e body st =
     (case destructure ''gender'' body of
        Inl err \<Rightarrow> failure 500 err st []
      | Inr b \<Rightarrow>
     if \<not> truthy (field b ''gender'') \<or> \<not> truthy (field b ''osce_id'')
     then failure 400 ''Missing required parameters: gender and osce_id'' st []
     else
     (case (field b ''gender'', field b ''osce_id'') of
        (Some g, Some oid) \<Rightarrow>
          if js_toString oid = None \<or> js_toString g = None
          then failure 500 primitive_error st []
          else
          (case osces_findOne e oid of
             Inl err \<Rightarrow> failure 500 err st [OscesFindOne oid]
           | Inr first \<Rightarrow>
               (case (case first of
                        Some row \<Rightarrow> (Inr (Some row), [OscesFindOne oid])
                      | None \<Rightarrow> (vps_findOne e oid, [OscesFindOne oid, VpsFindOne oid])) of
                  (Inl err, cs) \<Rightarrow> failure 500 err st cs
                | (Inr None, cs) \<Rightarrow> failure 404 ''OSCE case not found'' st cs
                | (Inr (Some case_description), cs) \<Rightarrow>
                    \<lparr>resp = InitOk (uuidv4 e),
                     sessions = AList.update (uuidv4 e)
                       \<lparr>gender = g, osce_id = oid,
                        conversationHistory =
                          [\<lparr>role = ''system'', content = getPatientPrompt e case_description\<rparr>],
                        active = False, lastActivity = now e\<rparr> st,
                     calls = cs\<rparr>))
      | _ \<Rightarrow> failure 400 ''Missing required parameters: gender and osce_id'' st []))"

definition initialGreeting :: string where
  "initialGreeting = ''Hello Doctor, I'm here for my appointment.''"

definition voice_start :: "env \<Rightarrow> json option \<Rightarrow> store \<Rightarrow> result" where
  "voice_start e body st =
     (case destructure ''session_id'' body of
        Inl err \<Rightarrow> failure 500 err st []
      | Inr b \<Rightarrow>
     if \<not> truthy (field b ''session_id'')
     then failure 400 ''Missing required parameter: session_id'' st []
     else
     (case Option.bind (field b ''session_id'') (sessions_get st) of
        None \<Rightarrow> failure 404 ''Session not found or expired'' st []
      | Some (sid, s) \<Rightarrow>
          (let s' = s\<lparr>active := True, lastActivity := now e,
                      conversationHistory := conversationHistory s @
                        [\<lparr>role = ''assistant'', content = initialGreeting\<rparr>]\<rparr>;
               st' = AList.update sid s' st
           in case generateSpeech e initialGreeting (gender s') of
                (Inl err, cs) \<Rightarrow> failure 500 err st' cs
              | (Inr audioBuffer, cs) \<Rightarrow>
                  \<lparr>resp = StartOk (toBase64 e audioBuffer) initialGreeting,
                   sessions = st', calls = cs\<rparr>)))"

definition voice_process :: "env \<Rightarrow> json option \<Rightarrow> buffer option \<Rightarrow> store \<Rightarrow> result" where
  "voice_process e body upload st =
     (case destructure ''session_id'' body of
        Inl err \<Rightarrow> failure 500 err st []
      | Inr b \<Rightarrow>
     if \<not> truthy (field b ''session_id'')
     then failure 400 ''Missing required parameter: session_id'' st []
     else
     (case upload of
        None \<Rightarrow> failure 400 ''No audio file provided'' st []
      | Some audio \<Rightarrow>
     (case Option.bind (field b ''session_id'') (sessions_get st) of
        None \<Rightarrow> failure 404 ''Session not found or expired'' st []
      | Some (sid, s) \<Rightarrow>
     if \<not> active s then failure 400 ''Session not active. Call /start first.'' st []
     else
       (let s1 = s\<lparr>lastActivity := now e\<rparr> in
        case transcribeAudio e audio of
          (Inl err, c1) \<Rightarrow> failure 500 err (AList.update sid s1 st) c1
        | (Inr transcription, c1) \<Rightarrow>
       (let s2 = s1\<lparr>conversationHistory := conversationHistory s1 @
                       [\<lparr>role = ''user'', content = transcription\<rparr>]\<rparr> in
        case getChatCompletion e (conversationHistory s2) of
          (Inl err, c2) \<Rightarrow> failure 500 err (AList.update sid s2 st) (c1 @ c2)
        | (Inr aiResponse, c2) \<Rightarrow>
       (let s3 = s2\<lparr>conversationHistory := conversationHistory s2 @
                       [\<lparr>role = ''assistant'', content = aiResponse\<rparr>]\<rparr> in
        case generateSpeech e aiResponse (gender s3) of
          (Inl err, c3) \<Rightarrow> failure 500 err (AList.update sid s3 st) (c1 @ c2 @ c3)
        | (Inr audioBuffer, c3) \<Rightarrow>
            \<lparr>resp = ProcessOk transcription aiResponse (toBase64 e audioBuffer),
             sessions = AList.update sid s3 st, calls = c1 @ c2 @ c3\<rparr>))))))"

definition voice_stop :: "json option \<Rightarrow> store \<Rightarrow> result" where
  "voice_stop body st =
     (case destructure ''session_id'' body of
        Inl err \<Rightarrow> failure 500 err st []
      | Inr b \<Rightarrow>
     if \<not> truthy (field b ''session_id'')
     then failure 400 ''Missing required parameter: session_id'' st []
     else
     (case Option.bind (field b ''session_id'') (sessions_get st) of
        None \<Rightarrow> failure 404 ''Session not found'' st []
      | Some (sid, s) \<Rightarrow> \<lparr>resp = StopOk, sessions = AList.delete sid st, calls = []\<rparr>))"

definition voice_history :: "json option \<Rightarrow> store \<Rightarrow> result" where
  "voice_history body st =
     (case destructure ''session_id'' body of
        Inl err \<Rightarrow> failure 500 err st []
      | Inr b \<Rightarrow>
     if \<not> truthy (field b ''session_id'')
     then failure 400 ''Missing required parameter: session_id'' st []
     else
     (case Option.bind (field b ''session_id'') (sessions_get st) of
        None \<Rightarrow> failure 404 ''Session not found'' st []
      | Some (sid, s) \<Rightarrow>
          \<lparr>resp = HistoryOk
             (map (\<lambda>m. \<lparr>role = role m, content = content m\<rparr>)
                (filter (\<lambda>m. role m \<noteq> ''system'') (conversationHistory s))),
           sessions = st, calls = []\<rparr>))"

section \<open>Runs of the server\<close>

text \<open>
  One event is one request served to completion, or one run of the sweeper. The
  server serves a list of events from left to right, each with what it reads from
  outside. The handlers are asynchronous functions on one thread; a run here takes
  each request through all of its steps before the next event begins, so no other
  event falls between the awaits of a start or a process.
\<close>

datatype event =
    Init "json option"
  | Start "json option"
  | Process "json option" "buffer option"
  | Stop "json option"
  | History "json option"
  | Sweep

fun step :: "env \<Rightarrow> event \<Rightarrow> store \<Rightarrow> store" where
  "step e (Init body) st = sessions (voice_init e body st)"
| "step e (Start body) st = sessions (voice_start e body st)"
| "step e (Process body upload) st = sessions (voice_process e body upload st)"
| "step e (Stop body) st = sessions (voice_stop body st)"
| "step e (History body) st = sessions (voice_history body st)"
| "step e Sweep st = cleanupOldSessions (now e) st"

fun run :: "(env \<times> event) list \<Rightarrow> store \<Rightarrow> store" where
  "run [] st = st"
| "run ((e, ev) # evs) st = run evs (step e ev st)"

section \<open>Shapes of requests and transcripts\<close>

text \<open>
  A request carries the session id \<open>sid\<close> when its body has the property
  \<^verbatim>\<open>session_id\<close> with that string, not empty, as its value.
\<close>

definition carries_id :: "json option \<Rightarrow> string \<Rightarrow> bool" where
  "carries_id body sid =
     (case body of
        None \<Rightarrow> False
      | Some b \<Rightarrow> field b ''session_id'' = Some (JStr sid) \<and> sid \<noteq> [])"

definition with_id :: "string \<Rightarrow> json option" where
  "with_id sid = Some (JObj [(''session_id'', JStr sid)])"

text \<open>
  The turns that the handlers push have role assistant or user; a transcript made by
  the server is a system turn followed by such turns. An event reissues an id when
  it is an init whose generated id is that id.
\<close>

definition turn_ok :: "msg \<Rightarrow> bool" where
  "turn_ok m = (role m = ''assistant'' \<or> role m = ''user'')"

definition extends :: "session \<Rightarrow> session \<Rightarrow> bool" where
  "extends s s' =
     (gender s' = gender s \<and>
      take (length (conversationHistory s)) (conversationHistory s') = conversationHistory s \<and>
      list_all turn_ok (drop (length (conversationHistory s)) (conversationHistory s')))"

definition transcript_ok :: "msg list \<Rightarrow> bool" where
  "transcript_ok h = (case h of [] \<Rightarrow> False | m # ms \<Rightarrow> role m = ''system'' \<and> list_all turn_ok ms)"

definition gender_ok :: "json \<Rightarrow> bool" where
  "gender_ok g = (truthy (Some g) \<and> js_toString g \<noteq> None)"

definition session_ok :: "session \<Rightarrow> bool" where
  "session_ok s = (transcript_ok (conversationHistory s) \<and> gender_ok (gender s))"

text \<open>The gender that an event stores, if it is an init with a parsed body.\<close>

fun init_gender :: "event \<Rightarrow> json option" where
  "init_gender (Init (Some b)) = field b ''gender''"
| "init_gender ev = None"

fun reissues :: "string \<Rightarrow> env \<times> event \<Rightarrow> bool" where
  "reissues sid (e, Init body) = (uuidv4 e = sid)"
| "reissues sid (e, ev) = False"

section \<open>A small scenario\<close>

text \<open>
  Concrete data for evaluating the handlers: one case in the database, services that
  answer, and a session as init creates it.
\<close>

definition demo_env :: env where
  "demo_env =
     \<lparr>now = 1000, uuidv4 = ''s1'',
      osces_findOne = (\<lambda>k. if k = JStr ''case-1'' then Inr (Some (Some ''chest pain'')) else Inr None),
      vps_findOne = (\<lambda>k. Inr None),
      patientPromptHead = ''You are a virtual patient. '',
      stringify = (\<lambda>d. case d of None \<Rightarrow> ''null'' | Some t \<Rightarrow> t),
      whisper = (\<lambda>fmt b. Inr ''What brings you in?''),
      chat = (\<lambda>h. Inr ''Chest pain.''),
      elevenlabs = (\<lambda>v t. Inr [1, 2, 3]),
      toBase64 = (\<lambda>b. ''AQID'')\<rparr>"

definition init_body :: "json \<Rightarrow> json option" where
  "init_body g = Some (JObj [(''gender'', g), (''osce_id'', JStr ''case-1'')])"

definition demo_system :: msg where
  "demo_system = \<lparr>role = ''system'', content = ''You are a virtual patient. chest pain''\<rparr>"

definition demo_session :: session where
  "demo_session =
     \<lparr>gender = JStr ''Male'', osce_id = JStr ''case-1'', conversationHistory = [demo_system],
      active = False, lastActivity = 1000\<rparr>"

definition demo_store :: store where
  "demo_store = [(''s1'', demo_session)]"

definition failing_chat_env :: env where
  "failing_chat_env = demo_env\<lparr>chat := (\<lambda>h. Inl ''timeout'')\<rparr>"

definition failing_speech_env :: env where
  "failing_speech_env = demo_env\<lparr>elevenlabs := (\<lambda>v t. Inl ''quota'')\<rparr>"

definition demo_active :: store where
  "demo_active = [(''s1'', demo_session\<lparr>active := True\<rparr>)]"

definition female_list_store :: store where
  "female_list_store = sessions (voice_init demo_env (init_body (JArr [JStr ''Female''])) [])"

definition demo_run :: "(env \<times> event) list" where
  "demo_run =
     [(demo_env, Init (init_body (JStr ''Male''))),
      (demo_env, Start (with_id ''s1'')),
      (demo_env, Process (with_id ''s1'') (Some [7]))]"

section \<open>The sweeper and the handlers, one at a time\<close>

lemma extends_append:
  "extends s s' =
     (gender s' = gender s \<and>
      (\<exists>extra. conversationHistory s' = conversationHistory s @ extra \<and> list_all turn_ok extra))"
proof
  assume ex: "extends s s'"
  let ?n = "length (conversationHistory s)"
  have t: "take ?n (conversationHistory s') = conversationHistory s"
    using ex by (simp add: extends_def)
  have "take ?n (conversationHistory s') @ drop ?n (conversationHistory s') =
          conversationHistory s'"
    by (rule append_take_drop_id)
  then have "conversationHistory s @ drop ?n (conversationHistory s') = conversationHistory s'"
    unfolding t .
  then have "conversationHistory s' = conversationHistory s @ drop ?n (conversationHistory s')"
    by (rule sym)
  moreover have "list_all turn_ok (drop ?n (conversationHistory s'))"
    using ex by (simp add: extends_def)
  moreover have "gender s' = gender s" using ex by (simp add: extends_def)
  ultimately show "gender s' = gender s \<and>
      (\<exists>extra. conversationHistory s' = conversationHistory s @ extra \<and> list_all turn_ok extra)"
    by blast
next
  assume "gender s' = gender s \<and>
      (\<exists>extra. conversationHistory s' = conversationHistory s @ extra \<and> list_all turn_ok extra)"
  then show "extends s s'" by (auto simp: extends_def)
qed

lemma sessions_get_Some:
  "sessions_get st v = Some (sid, s) \<Longrightarrow> v = JStr sid \<and> map_of st sid = Some s"
  by (cases v) (auto split: option.splits)

lemma bind_get_Some:
  "Option.bind x (sessions_get st) = Some (sid, s) \<Longrightarrow> x = Some (JStr sid) \<and> map_of st sid = Some s"
  by (cases x) (auto dest: sessions_get_Some)

lemma carries_id_read:
  assumes "carries_id body sid"
  shows "\<exists>b. destructure p body = Inr b \<and> field b ''session_id'' = Some (JStr sid) \<and>
           truthy (field b ''session_id'') \<and>
           Option.bind (field b ''session_id'') (sessions_get st) =
             (case map_of st sid of None \<Rightarrow> None | Some s \<Rightarrow> Some (sid, s))"
proof -
  obtain b where b: "body = Some b" "field b ''session_id'' = Some (JStr sid)" "sid \<noteq> []"
    using assms by (auto simp: carries_id_def split: option.splits)
  have "destructure p body = Inr b"
    using b by (cases b) (simp_all add: destructure_def)
  then show ?thesis using b by simp
qed

lemma cleanup_entries_only_deletes:
  "map_of (cleanup_entries t es st) k = None \<or> map_of (cleanup_entries t es st) k = map_of st k"
proof (induction es arbitrary: st)
  case Nil
  then show ?case by simp
next
  case (Cons p es)
  obtain k' s where p: "p = (k', s)" by (cases p)
  show ?case
    using Cons.IH [of "AList.delete k' st"] Cons.IH [of st]
    by (auto simp: p delete_conv)
qed

lemma cleanup_entries_absent:
  "map_of st k = None \<Longrightarrow> map_of (cleanup_entries t es st) k = None"
  using cleanup_entries_only_deletes [of t es st k] by auto

lemma cleanup_entries_stale:
  "(k, s) \<in> set es \<Longrightarrow> t - lastActivity s > maxAge \<Longrightarrow> map_of (cleanup_entries t es st) k = None"
proof (induction es arbitrary: st)
  case Nil
  then show ?case by simp
next
  case (Cons p es)
  obtain k' s' where p: "p = (k', s')" by (cases p)
  show ?case
  proof (cases "p = (k, s)")
    case True
    then show ?thesis
      using Cons.prems(2) by (simp add: cleanup_entries_absent delete_conv)
  next
    case False
    then have "(k, s) \<in> set es" using Cons.prems(1) by simp
    then show ?thesis using Cons.IH Cons.prems(2) by (simp add: p)
  qed
qed

lemma cleanup_entries_fresh:
  "\<forall>s. (k, s) \<in> set es \<longrightarrow> \<not> t - lastActivity s > maxAge \<Longrightarrow>
   map_of (cleanup_entries t es st) k = map_of st k"
proof (induction es arbitrary: st)
  case Nil
  then show ?case by simp
next
  case (Cons p es)
  obtain k' s' where p: "p = (k', s')" by (cases p)
  have rest: "\<forall>s. (k, s) \<in> set es \<longrightarrow> \<not> t - lastActivity s > maxAge"
    using Cons.prems by simp
  show ?case
  proof (cases "t - lastActivity s' > maxAge")
    case True
    then have "k' \<noteq> k" using Cons.prems p by auto
    then show ?thesis using True Cons.IH [OF rest] by (simp add: p)
  next
    case False
    then show ?thesis using Cons.IH [OF rest] by (simp add: p)
  qed
qed

lemma cleanup_stale:
  "map_of st k = Some s \<Longrightarrow> t - lastActivity s > maxAge \<Longrightarrow> map_of (cleanupOldSessions t st) k = None"
  unfolding cleanupOldSessions_def by (rule cleanup_entries_stale [OF map_of_SomeD])

lemma cleanup_fresh:
  assumes "distinct (map fst st)" "map_of st k = Some s" "\<not> t - lastActivity s > maxAge"
  shows "map_of (cleanupOldSessions t st) k = Some s"
proof -
  have "s' = s" if "(k, s') \<in> set st" for s'
    using map_of_is_SomeI [OF assms(1) that] assms(2) by simp
  then have "\<forall>s'. (k, s') \<in> set st \<longrightarrow> \<not> t - lastActivity s' > maxAge"
    using assms(3) by blast
  then show ?thesis
    unfolding cleanupOldSessions_def using assms(2) by (simp add: cleanup_entries_fresh)
qed

lemma cleanup_only_deletes:
  "map_of (cleanupOldSessions t st) k = Some s \<Longrightarrow> map_of st k = Some s"
  unfolding cleanupOldSessions_def using cleanup_entries_only_deletes [of t st st k] by auto

lemma cleanup_entries_distinct:
  "distinct (map fst st) \<Longrightarrow> distinct (map fst (cleanup_entries t es st))"
  by (induction es arbitrary: st) (auto simp: distinct_delete)

lemma init_sessions:
  "sessions (voice_init e body st) = st \<or>
   (\<exists>s. sessions (voice_init e body st) = AList.update (uuidv4 e) s st \<and>
        transcript_ok (conversationHistory s) \<and> gender_ok (gender s) \<and>
        init_gender (Init body) = Some (gender s))"
proof (cases "destructure ''gender'' body")
  case (Inl err)
  then show ?thesis by (simp add: voice_init_def failure_def)
next
  case (Inr b)
  then have "body = Some b"
    by (auto simp: destructure_def split: option.splits json.splits)
  then show ?thesis
    using Inr
    by (auto simp: voice_init_def failure_def transcript_ok_def gender_ok_def
        split: option.splits sum.splits prod.splits)
qed

lemma init_created:
  assumes "resp (voice_init e body st) = InitOk sid"
  shows "\<exists>b g oid d. body = Some b \<and> field b ''gender'' = Some g \<and> field b ''osce_id'' = Some oid \<and>
           gender_ok g \<and> sid = uuidv4 e \<and>
           sessions (voice_init e body st) =
             AList.update sid
               \<lparr>gender = g, osce_id = oid,
                conversationHistory = [\<lparr>role = ''system'', content = getPatientPrompt e d\<rparr>],
                active = False, lastActivity = now e\<rparr> st"
proof -
  obtain b where d: "destructure ''gender'' body = Inr b"
    using assms by (cases "destructure ''gender'' body") (auto simp: voice_init_def failure_def)
  then have body: "body = Some b"
    by (auto simp: destructure_def split: option.splits json.splits)
  show ?thesis
    using assms d body
    by (auto simp: voice_init_def failure_def gender_ok_def
        split: option.splits sum.splits prod.splits if_splits)
qed

lemma start_store:
  assumes "carries_id body sid" and "map_of st sid = Some s"
  shows "sessions (voice_start e body st) =
     AList.update sid
       (s\<lparr>active := True, lastActivity := now e,
          conversationHistory := conversationHistory s @
            [\<lparr>role = ''assistant'', content = initialGreeting\<rparr>]\<rparr>) st"
proof -
  obtain b where "destructure ''session_id'' body = Inr b" "truthy (field b ''session_id'')"
    "Option.bind (field b ''session_id'') (sessions_get st) = Some (sid, s)"
    using carries_id_read [OF assms(1), of "''session_id''" st] assms(2) by auto
  then show ?thesis
    by (simp add: voice_start_def failure_def Let_def split: prod.splits sum.splits)
qed

lemma start_shape:
  "sessions (voice_start e body st) = st \<or>
   (\<exists>sid s s'. map_of st sid = Some s \<and> sessions (voice_start e body st) = AList.update sid s' st \<and>
        extends s s')"
proof (cases "destructure ''session_id'' body")
  case (Inl err)
  then show ?thesis by (simp add: voice_start_def failure_def)
next
  case (Inr b)
  show ?thesis
  proof (cases "Option.bind (field b ''session_id'') (sessions_get st)")
    case None
    then show ?thesis using Inr by (simp add: voice_start_def failure_def)
  next
    case (Some p)
    obtain sid s where p: "p = (sid, s)" by (cases p)
    have s: "map_of st sid = Some s" using Some p bind_get_Some by blast
    show ?thesis
    proof (cases "truthy (field b ''session_id'')")
      case False
      then show ?thesis using Inr by (simp add: voice_start_def failure_def)
    next
      case True
      let ?s' = "s\<lparr>active := True, lastActivity := now e,
          conversationHistory := conversationHistory s @
            [\<lparr>role = ''assistant'', content = initialGreeting\<rparr>]\<rparr>"
      have "sessions (voice_start e body st) = AList.update sid ?s' st"
        using Inr Some p True
        by (simp add: voice_start_def failure_def Let_def split: prod.splits sum.splits)
      moreover have "extends s ?s'" by (simp add: extends_append turn_ok_def)
      ultimately show ?thesis using s by blast
    qed
  qed
qed

lemma process_rejected:
  assumes "carries_id body sid"
    and "upload = None \<or> map_of st sid = None \<or> (map_of st sid = Some s \<and> \<not> active s)"
  shows "sessions (voice_process e body upload st) = st"
proof -
  obtain b where "destructure ''session_id'' body = Inr b" "truthy (field b ''session_id'')"
    "Option.bind (field b ''session_id'') (sessions_get st) =
       (case map_of st sid of None \<Rightarrow> None | Some s \<Rightarrow> Some (sid, s))"
    using carries_id_read [OF assms(1), of "''session_id''" st] by auto
  then show ?thesis
    using assms(2) by (auto simp: voice_process_def failure_def split: option.splits)
qed

lemma process_store:
  assumes "carries_id body sid" "upload = Some audio" "map_of st sid = Some s" "active s"
  shows "\<exists>extra. list_all turn_ok extra \<and>
           sessions (voice_process e body upload st) =
             AList.update sid
               (s\<lparr>lastActivity := now e,
                  conversationHistory := conversationHistory s @ extra\<rparr>) st"
proof -
  obtain b where rd: "destructure ''session_id'' body = Inr b" "truthy (field b ''session_id'')"
    "Option.bind (field b ''session_id'') (sessions_get st) = Some (sid, s)"
    using carries_id_read [OF assms(1), of "''session_id''" st] assms(3) by auto
  obtain tr c1 where tr: "transcribeAudio e audio = (tr, c1)"
    by (cases "transcribeAudio e audio")
  show ?thesis
  proof (cases tr)
    case (Inl err)
    show ?thesis
      by (rule exI [of _ "[]"]) (simp add: voice_process_def failure_def assms rd tr Inl)
  next
    case (Inr transcription)
    let ?u = "\<lparr>role = ''user'', content = transcription\<rparr>"
    obtain ar c2 where ar: "getChatCompletion e (conversationHistory s @ [?u]) = (ar, c2)"
      by (cases "getChatCompletion e (conversationHistory s @ [?u])")
    show ?thesis
    proof (cases ar)
      case (Inl err)
      show ?thesis
        by (rule exI [of _ "[?u]"])
          (simp add: voice_process_def failure_def assms rd tr Inr ar Inl turn_ok_def)
    next
      case ai: (Inr aiResponse)
      let ?a = "\<lparr>role = ''assistant'', content = aiResponse\<rparr>"
      show ?thesis
        by (rule exI [of _ "[?u, ?a]"])
          (simp add: voice_process_def failure_def assms rd tr Inr ar ai turn_ok_def Let_def
            split: prod.splits sum.splits)
    qed
  qed
qed

lemma process_shape:
  "sessions (voice_process e body upload st) = st \<or>
   (\<exists>sid s s'. map_of st sid = Some s \<and>
        sessions (voice_process e body upload st) = AList.update sid s' st \<and> extends s s')"
proof (cases "destructure ''session_id'' body")
  case (Inl err)
  then show ?thesis by (simp add: voice_process_def failure_def)
next
  case (Inr b)
  show ?thesis
  proof (cases "Option.bind (field b ''session_id'') (sessions_get st)")
    case None
    then show ?thesis using Inr by (simp add: voice_process_def failure_def split: option.splits)
  next
    case (Some p)
    obtain sid s where p: "p = (sid, s)" by (cases p)
    have s: "map_of st sid = Some s" and v: "field b ''session_id'' = Some (JStr sid)"
      using Some p bind_get_Some by blast+
    show ?thesis
    proof (cases "truthy (field b ''session_id'') \<and> upload \<noteq> None \<and> active s")
      case False
      then show ?thesis
        using Inr Some p by (auto simp: voice_process_def failure_def split: option.splits)
    next
      case True
      then obtain audio where a: "upload = Some audio" by auto
      have "sid \<noteq> []" using True v by simp
      moreover have "body = Some b"
        using Inr by (auto simp: destructure_def split: option.splits json.splits)
      ultimately have c: "carries_id body sid" using v by (simp add: carries_id_def)
      obtain extra where x: "list_all turn_ok extra"
        "sessions (voice_process e body upload st) =
             AList.update sid
               (s\<lparr>lastActivity := now e,
                  conversationHistory := conversationHistory s @ extra\<rparr>) st"
        using process_store [OF c a s, of e] True by blast
      have "extends s (s\<lparr>lastActivity := now e,
                  conversationHistory := conversationHistory s @ extra\<rparr>)"
        using x(1) by (auto simp: extends_append)
      then show ?thesis using x(2) s by blast
    qed
  qed
qed

lemma stop_sessions:
  "sessions (voice_stop body st) = st \<or> (\<exists>sid. sessions (voice_stop body st) = AList.delete sid st)"
  by (auto simp: voice_stop_def failure_def split: option.splits sum.splits)

lemma history_sessions: "sessions (voice_history body st) = st"
  by (auto simp: voice_history_def failure_def split: option.splits sum.splits)

section \<open>What one event does to the table\<close>

lemma step_shape:
  "step e ev st = st \<or>
   (\<exists>sid s s'. map_of st sid = Some s \<and> step e ev st = AList.update sid s' st \<and> extends s s') \<or>
   (\<exists>sid. step e ev st = AList.delete sid st) \<or>
   (\<exists>s. reissues (uuidv4 e) (e, ev) \<and> step e ev st = AList.update (uuidv4 e) s st \<and>
        transcript_ok (conversationHistory s) \<and> gender_ok (gender s) \<and>
        init_gender ev = Some (gender s)) \<or>
   step e ev st = cleanupOldSessions (now e) st"
proof (cases ev)
  case (Init body)
  then show ?thesis using init_sessions [of e body st] by auto
next
  case (Start body)
  then show ?thesis using start_shape [of e body st] by auto
next
  case (Process body upload)
  then show ?thesis using process_shape [of e body upload st] by auto
next
  case (Stop body)
  then show ?thesis using stop_sessions [of body st] by auto
next
  case (History body)
  then show ?thesis by (simp add: history_sessions)
next
  case Sweep
  then show ?thesis by simp
qed

lemma step_cases:
  obtains (same) "step e ev st = st"
  | (touch) sid s s' where "map_of st sid = Some s" "step e ev st = AList.update sid s' st" "extends s s'"
  | (del) sid where "step e ev st = AList.delete sid st"
  | (new) s where "reissues (uuidv4 e) (e, ev)" "step e ev st = AList.update (uuidv4 e) s st"
      "transcript_ok (conversationHistory s)" "gender_ok (gender s)"
      "init_gender ev = Some (gender s)"
  | (sweep) "step e ev st = cleanupOldSessions (now e) st"
  using step_shape [of e ev st] by blast

lemma reissues_self: "reissues k (e, ev) \<Longrightarrow> reissues sid (e, ev) = (uuidv4 e = sid)"
  by (cases ev) auto

lemma step_absent:
  assumes "map_of st sid = None" "\<not> reissues sid (e, ev)"
  shows "map_of (step e ev st) sid = None"
proof (cases rule: step_cases [of e ev st])
  case same
  then show ?thesis using assms by simp
next
  case (touch k s s')
  then have "k \<noteq> sid" using assms(1) by auto
  then show ?thesis using touch(2) assms(1) by (simp add: update_conv)
next
  case (del k)
  then show ?thesis using assms(1) by (simp add: delete_conv)
next
  case (new s)
  then have "uuidv4 e \<noteq> sid" using assms(2) reissues_self by blast
  then show ?thesis using new(2) assms(1) by (simp add: update_conv)
next
  case sweep
  then show ?thesis using assms(1) by (simp add: cleanupOldSessions_def cleanup_entries_absent)
qed

text \<open>
  A session that is in the table before and after an event that does not reissue
  its id has kept its gender and its earlier turns.
\<close>

lemma step_extends:
  assumes "map_of st sid = Some s" "\<not> reissues sid (e, ev)" "map_of (step e ev st) sid = Some s'"
  shows "extends s s'"
proof -
  have refl: "extends s s" by (simp add: extends_append)
  show ?thesis
  proof (cases rule: step_cases [of e ev st])
    case same
    then show ?thesis using assms refl by simp
  next
    case (touch k s0 s1)
    have after: "map_of (AList.update k s1 st) sid = Some s'"
      using assms(3) unfolding touch(2) .
    show ?thesis
    proof (cases "k = sid")
      case True
      have "s1 = s'" using after unfolding True by (simp add: update_conv)
      moreover have "s0 = s" using touch(1) assms(1) unfolding True by simp
      ultimately show ?thesis using touch(3) by simp
    next
      case False
      then have "map_of st sid = Some s'" using after by (simp add: update_conv)
      then show ?thesis using assms(1) refl by simp
    qed
  next
    case (del k)
    have "map_of (AList.delete k st) sid = Some s'"
      using assms(3) unfolding del .
    then have "map_of st sid = Some s'" by (simp add: delete_conv split: if_splits)
    then show ?thesis using assms(1) refl by simp
  next
    case (new s0)
    have after: "map_of (AList.update (uuidv4 e) s0 st) sid = Some s'"
      using assms(3) unfolding new(2) .
    have "uuidv4 e \<noteq> sid" using assms(2) reissues_self [OF new(1)] by simp
    then have "map_of st sid = Some s'" using after by (simp add: update_conv)
    then show ?thesis using assms(1) refl by simp
  next
    case sweep
    have "map_of (cleanupOldSessions (now e) st) sid = Some s'"
      using assms(3) unfolding sweep .
    then have "map_of st sid = Some s'" by (rule cleanup_only_deletes)
    then show ?thesis using assms(1) refl by simp
  qed
qed

lemma extends_trans: "extends s s1 \<Longrightarrow> extends s1 s2 \<Longrightarrow> extends s s2"
  by (auto simp: extends_append)

lemma extends_prefix: "extends s s' \<Longrightarrow> prefix (conversationHistory s) (conversationHistory s')"
  by (auto simp: extends_append)

lemma step_distinct: "distinct (map fst st) \<Longrightarrow> distinct (map fst (step e ev st))"
  by (cases rule: step_cases [of e ev st])
    (simp_all add: distinct_update distinct_delete cleanupOldSessions_def cleanup_entries_distinct)

lemma extends_session_ok: "extends s s' \<Longrightarrow> session_ok s \<Longrightarrow> session_ok s'"
  by (auto simp: extends_append transcript_ok_def session_ok_def split: list.splits)

lemma step_session_ok:
  assumes inv: "\<forall>k s. map_of st k = Some s \<longrightarrow> session_ok s"
    and after: "map_of (step e ev st) k = Some s'"
  shows "session_ok s'"
proof (cases rule: step_cases [of e ev st])
  case same
  then show ?thesis using assms by simp
next
  case (touch k0 s0 s1)
  have after': "map_of (AList.update k0 s1 st) k = Some s'"
    using after unfolding touch(2) .
  show ?thesis
  proof (cases "k0 = k")
    case True
    have "s1 = s'" using after' unfolding True by (simp add: update_conv)
    then have "extends s0 s'" using touch(3) by simp
    moreover have "session_ok s0" using inv touch(1) by blast
    ultimately show ?thesis by (rule extends_session_ok)
  next
    case False
    then have "map_of st k = Some s'" using after' by (simp add: update_conv)
    then show ?thesis using inv by blast
  qed
next
  case (del k0)
  have "map_of (AList.delete k0 st) k = Some s'"
    using after unfolding del .
  then have "map_of st k = Some s'" by (simp add: delete_conv split: if_splits)
  then show ?thesis using inv by blast
next
  case (new s0)
  have after': "map_of (AList.update (uuidv4 e) s0 st) k = Some s'"
    using after unfolding new(2) .
  show ?thesis
  proof (cases "uuidv4 e = k")
    case True
    have "s0 = s'" using after' unfolding True by (simp add: update_conv)
    then show ?thesis using new(3,4) by (simp add: session_ok_def)
  next
    case False
    then have "map_of st k = Some s'" using after' by (simp add: update_conv)
    then show ?thesis using inv by blast
  qed
next
  case sweep
  have "map_of (cleanupOldSessions (now e) st) k = Some s'"
    using after unfolding sweep .
  then have "map_of st k = Some s'" by (rule cleanup_only_deletes)
  then show ?thesis using inv by blast
qed

lemma run_absent:
  "map_of st sid = None \<Longrightarrow> list_all (\<lambda>x. \<not> reissues sid x) evs \<Longrightarrow> map_of (run evs st) sid = None"
  by (induction evs arbitrary: st) (auto simp: step_absent)

lemma run_extends:
  "map_of st sid = Some s \<Longrightarrow> list_all (\<lambda>x. \<not> reissues sid x) evs \<Longrightarrow>
   map_of (run evs st) sid = Some s' \<Longrightarrow> extends s s'"
proof (induction evs arbitrary: st s)
  case Nil
  then show ?case by (simp add: extends_append)
next
  case (Cons x evs)
  obtain e ev where x: "x = (e, ev)" by (cases x)
  have nr: "\<not> reissues sid (e, ev)" and rest: "list_all (\<lambda>x. \<not> reissues sid x) evs"
    using Cons.prems(2) x by auto
  show ?case
  proof (cases "map_of (step e ev st) sid")
    case None
    then have "map_of (run evs (step e ev st)) sid = None" using rest by (rule run_absent)
    then show ?thesis using Cons.prems(3) x by simp
  next
    case (Some s1)
    have "extends s s1"
      using step_extends [OF Cons.prems(1) nr Some] .
    moreover have "extends s1 s'"
      using Cons.IH [OF Some rest] Cons.prems(3) x by simp
    ultimately show ?thesis by (rule extends_trans)
  qed
qed

lemma run_prefix:
  "map_of st sid = Some s \<Longrightarrow> list_all (\<lambda>x. \<not> reissues sid x) evs \<Longrightarrow>
   map_of (run evs st) sid = Some s' \<Longrightarrow> prefix (conversationHistory s) (conversationHistory s')"
  using run_extends extends_prefix by blast

lemma run_distinct: "distinct (map fst st) \<Longrightarrow> distinct (map fst (run evs st))"
  by (induction evs arbitrary: st) (auto simp: step_distinct)

lemma run_session_ok:
  "\<forall>k s. map_of st k = Some s \<longrightarrow> session_ok s \<Longrightarrow>
   map_of (run evs st) k = Some s' \<Longrightarrow> session_ok s'"
proof (induction evs arbitrary: st)
  case Nil
  then show ?case by simp
next
  case (Cons x evs)
  obtain e ev where x: "x = (e, ev)" by (cases x)
  have "\<forall>k s. map_of (step e ev st) k = Some s \<longrightarrow> session_ok s"
    using step_session_ok [OF Cons.prems(1)] by blast
  then show ?case using Cons.IH [of "step e ev st"] Cons.prems(2) x by simp
qed

lemma run_from_empty_ok:
  "map_of (run evs []) k = Some s \<Longrightarrow> session_ok s"
  by (rule run_session_ok [of "[]"]) simp_all

text \<open>
  The gender of a session in the table after an event is the gender that the id held
  before the event, or the gender that the event, an init, has stored.
\<close>

lemma step_gender_source:
  assumes after: "map_of (step e ev st) k = Some s'"
  shows "(\<exists>s. map_of st k = Some s \<and> gender s = gender s') \<or> init_gender ev = Some (gender s')"
proof (cases rule: step_cases [of e ev st])
  case same
  then show ?thesis using after by simp
next
  case (touch k0 s0 s1)
  have after': "map_of (AList.update k0 s1 st) k = Some s'"
    using after unfolding touch(2) .
  show ?thesis
  proof (cases "k0 = k")
    case True
    have "s1 = s'" using after' unfolding True by (simp add: update_conv)
    then have "gender s0 = gender s'" using touch(3) by (simp add: extends_def)
    then show ?thesis using touch(1) True by blast
  next
    case False
    then have "map_of st k = Some s'" using after' by (simp add: update_conv)
    then show ?thesis by blast
  qed
next
  case (del k0)
  have "map_of (AList.delete k0 st) k = Some s'"
    using after unfolding del .
  then have "map_of st k = Some s'" by (simp add: delete_conv split: if_splits)
  then show ?thesis by blast
next
  case (new s0)
  have after': "map_of (AList.update (uuidv4 e) s0 st) k = Some s'"
    using after unfolding new(2) .
  show ?thesis
  proof (cases "uuidv4 e = k")
    case True
    have "s0 = s'" using after' unfolding True by (simp add: update_conv)
    then show ?thesis using new(5) by simp
  next
    case False
    then have "map_of st k = Some s'" using after' by (simp add: update_conv)
    then show ?thesis by blast
  qed
next
  case sweep
  have "map_of (cleanupOldSessions (now e) st) k = Some s'"
    using after unfolding sweep .
  then have "map_of st k = Some s'" by (rule cleanup_only_deletes)
  then show ?thesis by blast
qed

lemma run_gender_source:
  "map_of (run evs st) k = Some s' \<Longrightarrow>
   (\<exists>s. map_of st k = Some s \<and> gender s = gender s') \<or>
   list_ex (\<lambda>x. init_gender (snd x) = Some (gender s')) evs"
proof (induction evs arbitrary: st)
  case Nil
  then show ?case by simp
next
  case (Cons x evs)
  obtain e ev where x: "x = (e, ev)" by (cases x)
  have "map_of (run evs (step e ev st)) k = Some s'" using Cons.prems x by simp
  from Cons.IH [OF this] show ?case
  proof
    assume "\<exists>s1. map_of (step e ev st) k = Some s1 \<and> gender s1 = gender s'"
    then obtain s1 where s1: "map_of (step e ev st) k = Some s1" "gender s1 = gender s'"
      by blast
    from step_gender_source [OF s1(1)] show ?thesis
      using s1(2) x by auto
  next
    assume "list_ex (\<lambda>x. init_gender (snd x) = Some (gender s')) evs"
    then show ?thesis by simp
  qed
qed

lemma run_append: "run (evs1 @ evs2) st = run evs2 (run evs1 st)"
  by (induction evs1 arbitrary: st) auto

lemma absent_not_found:
  assumes "carries_id body sid" "map_of st sid = None"
  shows "voice_start e body st = failure 404 ''Session not found or expired'' st [] \<and>
         voice_process e body (Some audio) st =
           failure 404 ''Session not found or expired'' st [] \<and>
         voice_history body st = failure 404 ''Session not found'' st [] \<and>
         voice_stop body st = failure 404 ''Session not found'' st []"
proof -
  obtain b where "destructure ''session_id'' body = Inr b" "truthy (field b ''session_id'')"
    "Option.bind (field b ''session_id'') (sessions_get st) = None"
    using carries_id_read [OF assms(1), of "''session_id''" st] assms(2) by auto
  then show ?thesis
    by (simp add: voice_start_def voice_process_def voice_history_def voice_stop_def)
qed

lemma copy_turns: "map (\<lambda>m. \<lparr>role = role m, content = content m\<rparr>) xs = (xs :: msg list)"
  by (induction xs) auto

lemma transcript_ok_filter:
  assumes "transcript_ok h"
  shows "\<exists>sys. role sys = ''system'' \<and> h = sys # filter (\<lambda>m. role m \<noteq> ''system'') h"
proof (cases h)
  case Nil
  then show ?thesis using assms by (simp add: transcript_ok_def)
next
  case (Cons m ms)
  then have sys: "role m = ''system''" and rest: "list_all turn_ok ms"
    using assms by (simp_all add: transcript_ok_def)
  have "filter (\<lambda>m. role m \<noteq> ''system'') ms = ms"
    using rest by (induction ms) (auto simp: turn_ok_def)
  then show ?thesis using sys Cons by simp
qed

lemma carries_with_id: "sid \<noteq> [] \<Longrightarrow> carries_id (with_id sid) sid"
  by (simp add: carries_id_def with_id_def)

lemma demo_run_store:
  "run demo_run [] =
     [(''s1'', demo_session\<lparr>active := True,
         conversationHistory :=
           [demo_system,
            \<lparr>role = ''assistant'', content = initialGreeting\<rparr>,
            \<lparr>role = ''user'', content = ''What brings you in?''\<rparr>,
            \<lparr>role = ''assistant'', content = ''Chest pain.''\<rparr>]\<rparr>)]"
  by (simp add: demo_run_def init_body_def with_id_def destructure_def voice_init_def
      voice_start_def voice_process_def
      demo_env_def demo_session_def demo_system_def generateSpeech_def getChatCompletion_def
      transcribeAudio_def supportedFormats_def getPatientPrompt_def Let_def)

lemma starts_session:
  assumes "carries_id body sid"
  shows "map_of st sid = Some s \<Longrightarrow>
    map_of (run (map (\<lambda>e. (e, Start body)) es) st) sid =
      Some (s\<lparr>active := (es \<noteq> [] \<or> active s),
              lastActivity := (if es = [] then lastActivity s else now (last es)),
              conversationHistory := conversationHistory s @
                replicate (length es) \<lparr>role = ''assistant'', content = initialGreeting\<rparr>\<rparr>)"
proof (induction es arbitrary: st s)
  case Nil
  then show ?case by simp
next
  case (Cons e es)
  let ?g = "\<lparr>role = ''assistant'', content = initialGreeting\<rparr>"
  let ?s1 = "s\<lparr>active := True, lastActivity := now e,
          conversationHistory := conversationHistory s @ [?g]\<rparr>"
  have st1: "sessions (voice_start e body st) = AList.update sid ?s1 st"
    using start_store [OF assms Cons.prems, of e] by simp
  have "map_of (AList.update sid ?s1 st) sid = Some ?s1" by (simp add: update_conv)
  from Cons.IH [OF this] show ?case
    by (cases "es = []") (simp_all add: st1)
qed

section \<open>The claims\<close>

text \<open>
  For a parsed body the process handler validates in a fixed order. A body without a
  truthy session id, or with one and without an audio file, is answered 400 whatever
  the table holds (the table is not consulted). With both present, an id that is not
  in the table is answered 404 before the session's state is looked at, and a session
  that is present but not active (as init leaves it) is answered 400 "Session not
  active". In each of these cases the table is unchanged and no external service is
  called.
\<close>

lemma process_validation_parsed_body:
  "(destructure ''session_id'' body = Inr b \<and> \<not> truthy (field b ''session_id'') \<longrightarrow>
      voice_process e body upload st =
        failure 400 ''Missing required parameter: session_id'' st []) \<and>
   (carries_id body sid \<and> upload = None \<longrightarrow>
      voice_process e body upload st = failure 400 ''No audio file provided'' st []) \<and>
   (carries_id body sid \<and> upload = Some audio \<and> map_of st sid = None \<longrightarrow>
      voice_process e body upload st = failure 404 ''Session not found or expired'' st []) \<and>
   (carries_id body sid \<and> upload = Some audio \<and> map_of st sid = Some s \<and> \<not> active s \<longrightarrow>
      voice_process e body upload st =
        failure 400 ''Session not active. Call /start first.'' st [])"
proof (intro conjI impI)
  assume "destructure ''session_id'' body = Inr b \<and> \<not> truthy (field b ''session_id'')"
  then show "voice_process e body upload st =
        failure 400 ''Missing required parameter: session_id'' st []"
    by (simp add: voice_process_def)
next
  assume h: "carries_id body sid \<and> upload = None"
  then obtain b where "destructure ''session_id'' body = Inr b" "truthy (field b ''session_id'')"
    using carries_id_read [of body sid "''session_id''" st] by auto
  then show "voice_process e body upload st = failure 400 ''No audio file provided'' st []"
    using h by (simp add: voice_process_def)
next
  assume h: "carries_id body sid \<and> upload = Some audio \<and> map_of st sid = None"
  then show "voice_process e body upload st = failure 404 ''Session not found or expired'' st []"
    using absent_not_found [of body sid st e audio] by simp
next
  assume h: "carries_id body sid \<and> upload = Some audio \<and> map_of st sid = Some s \<and> \<not> active s"
  then obtain b where "destructure ''session_id'' body = Inr b" "truthy (field b ''session_id'')"
    "Option.bind (field b ''session_id'') (sessions_get st) = Some (sid, s)"
    using carries_id_read [of body sid "''session_id''" st] by auto
  then show "voice_process e body upload st =
        failure 400 ''Session not active. Call /start first.'' st []"
    using h by (simp add: voice_process_def)
qed

text \<open>
  C1. The claim asks that a process request without a session id be rejected as a
  validation error (400). A request for which no body was parsed has no session id,
  and the handler answers it 500 with the message of the TypeError that the
  destructuring of \<^verbatim>\<open>req.body\<close> throws, whatever the upload and the table are. The
  table is unchanged and no external service is called.
\<close>

theorem process_without_body:
  "voice_process e None upload st =
     failure 500 ''Cannot destructure property 'session_id' of 'req.body' as it is undefined.''
       st []"
  by (simp add: voice_process_def destructure_def destructure_error_def quoted_def)

text \<open>
  C2. A start that answers with success has appended exactly one turn to the session's
  transcript, the assistant turn "Hello Doctor, I'm here for my appointment.". A
  process that answers with success has appended exactly two turns: the user turn
  with the text that transcription returned, then the assistant turn with the text
  that the chat completion returned for the transcript ending in that user turn.
\<close>

theorem start_process_append:
  "(carries_id body sid \<and> resp (voice_start e body st) = StartOk a t \<longrightarrow>
      (\<exists>s. map_of st sid = Some s \<and>
           map_of (sessions (voice_start e body st)) sid =
             Some (s\<lparr>active := True, lastActivity := now e,
                     conversationHistory := conversationHistory s @
                       [\<lparr>role = ''assistant'',
                         content = ''Hello Doctor, I'm here for my appointment.''\<rparr>]\<rparr>))) \<and>
   (carries_id body sid \<and>
    resp (voice_process e body upload st) = ProcessOk transcription aiResponse a \<longrightarrow>
      (\<exists>s audio. map_of st sid = Some s \<and> upload = Some audio \<and>
           fst (transcribeAudio e audio) = Inr transcription \<and>
           chat e (conversationHistory s @ [\<lparr>role = ''user'', content = transcription\<rparr>]) =
             Inr aiResponse \<and>
           map_of (sessions (voice_process e body upload st)) sid =
             Some (s\<lparr>lastActivity := now e,
                     conversationHistory := conversationHistory s @
                       [\<lparr>role = ''user'', content = transcription\<rparr>,
                        \<lparr>role = ''assistant'', content = aiResponse\<rparr>]\<rparr>)))"
proof (intro conjI impI)
  assume h: "carries_id body sid \<and> resp (voice_start e body st) = StartOk a t"
  then obtain s where s: "map_of st sid = Some s"
    using absent_not_found [of body sid st e] by (cases "map_of st sid") (auto simp: failure_def)
  have "map_of (sessions (voice_start e body st)) sid =
             Some (s\<lparr>active := True, lastActivity := now e,
                     conversationHistory := conversationHistory s @
                       [\<lparr>role = ''assistant'', content = initialGreeting\<rparr>]\<rparr>)"
    using h s start_store [of body sid st s e] by (simp add: update_conv)
  then show "\<exists>s. map_of st sid = Some s \<and>
           map_of (sessions (voice_start e body st)) sid =
             Some (s\<lparr>active := True, lastActivity := now e,
                     conversationHistory := conversationHistory s @
                       [\<lparr>role = ''assistant'',
                         content = ''Hello Doctor, I'm here for my appointment.''\<rparr>]\<rparr>)"
    using s by (simp add: initialGreeting_def)
next
  assume h: "carries_id body sid \<and>
    resp (voice_process e body upload st) = ProcessOk transcription aiResponse a"
  then have c: "carries_id body sid" by simp
  from h obtain audio where u: "upload = Some audio"
    using process_validation_parsed_body [of body _ e upload st sid]
    by (cases upload) (auto simp: failure_def)
  from h u obtain s where s: "map_of st sid = Some s"
    using absent_not_found [of body sid st e audio]
    by (cases "map_of st sid") (auto simp: failure_def)
  from h u s have act: "active s"
    using process_validation_parsed_body [of body _ e upload st sid audio s]
    by (cases "active s") (auto simp: failure_def)
  obtain b where rd: "destructure ''session_id'' body = Inr b" "truthy (field b ''session_id'')"
    "Option.bind (field b ''session_id'') (sessions_get st) = Some (sid, s)"
    using carries_id_read [OF c, of "''session_id''" st] s by auto
  obtain tr c1 where tr: "transcribeAudio e audio = (tr, c1)"
    by (cases "transcribeAudio e audio")
  from h u s act tr rd have tr': "tr = Inr transcription"
    by (cases tr)
      (auto simp: voice_process_def failure_def Let_def getChatCompletion_def
        split: prod.splits sum.splits)
  from h u s act tr tr' rd
  have ai: "chat e (conversationHistory s @ [\<lparr>role = ''user'', content = transcription\<rparr>]) =
             Inr aiResponse"
    by (cases "chat e (conversationHistory s @ [\<lparr>role = ''user'', content = transcription\<rparr>])")
      (auto simp: voice_process_def failure_def Let_def getChatCompletion_def
        split: prod.splits sum.splits)
  have "map_of (sessions (voice_process e body upload st)) sid =
             Some (s\<lparr>lastActivity := now e,
                     conversationHistory := conversationHistory s @
                       [\<lparr>role = ''user'', content = transcription\<rparr>,
                        \<lparr>role = ''assistant'', content = aiResponse\<rparr>]\<rparr>)"
    using h u s act tr tr' ai rd
    by (simp add: voice_process_def failure_def Let_def getChatCompletion_def update_conv
        split: prod.splits sum.splits)
  then show "\<exists>s audio. map_of st sid = Some s \<and> upload = Some audio \<and>
           fst (transcribeAudio e audio) = Inr transcription \<and>
           chat e (conversationHistory s @ [\<lparr>role = ''user'', content = transcription\<rparr>]) =
             Inr aiResponse \<and>
           map_of (sessions (voice_process e body upload st)) sid =
             Some (s\<lparr>lastActivity := now e,
                     conversationHistory := conversationHistory s @
                       [\<lparr>role = ''user'', content = transcription\<rparr>,
                        \<lparr>role = ''assistant'', content = aiResponse\<rparr>]\<rparr>)"
    using u s tr tr' ai by simp
qed

theorem start_process_append_witness:
  "map_of (sessions (voice_start demo_env (with_id ''s1'') demo_store)) ''s1'' =
     Some (demo_session\<lparr>active := True, lastActivity := 1000,
        conversationHistory :=
          [demo_system,
           \<lparr>role = ''assistant'', content = ''Hello Doctor, I'm here for my appointment.''\<rparr>]\<rparr>) \<and>
   map_of (sessions (voice_process demo_env (with_id ''s1'') (Some [7])
        (sessions (voice_start demo_env (with_id ''s1'') demo_store)))) ''s1'' =
     Some (demo_session\<lparr>active := True, lastActivity := 1000,
        conversationHistory :=
          [demo_system,
           \<lparr>role = ''assistant'', content = ''Hello Doctor, I'm here for my appointment.''\<rparr>,
           \<lparr>role = ''user'', content = ''What brings you in?''\<rparr>,
           \<lparr>role = ''assistant'', content = ''Chest pain.''\<rparr>]\<rparr>)"
  using start_process_append [where body = "with_id ''s1''" and sid = "''s1''" and e = demo_env
      and st = demo_store and a = "''AQID''"
      and t = "''Hello Doctor, I'm here for my appointment.''"]
    start_process_append [where body = "with_id ''s1''" and sid = "''s1''" and e = demo_env
      and st = "sessions (voice_start demo_env (with_id ''s1'') demo_store)" and a = "''AQID''"
      and upload = "Some [7]" and transcription = "''What brings you in?''"
      and aiResponse = "''Chest pain.''"]
  by (simp add: carries_id_def with_id_def destructure_def voice_start_def voice_process_def
      demo_env_def demo_store_def
      demo_session_def demo_system_def generateSpeech_def getChatCompletion_def
      transcribeAudio_def supportedFormats_def initialGreeting_def Let_def)

text \<open>
  C3. Once an id has left the table, by a stop that answered with success or by a
  sweep that found its session idle for longer than \<open>maxAge\<close>, every later start,
  process (with an audio file), history and stop on that id is answered 404 and
  changes nothing, after any further events that do not issue the same id again from
  the id generator. The answers do not depend on which of the two removed the id.
\<close>

theorem deleted_session_not_found:
  assumes "carries_id body sid"
    and "(carries_id body0 sid \<and> resp (voice_stop body0 st) = StopOk \<and>
          st' = sessions (voice_stop body0 st)) \<or>
         (map_of st sid = Some s \<and> maxAge < t - lastActivity s \<and> st' = cleanupOldSessions t st)"
    and "list_all (\<lambda>x. \<not> reissues sid x) evs"
  shows "voice_start e body (run evs st') =
           failure 404 ''Session not found or expired'' (run evs st') [] \<and>
         voice_process e body (Some audio) (run evs st') =
           failure 404 ''Session not found or expired'' (run evs st') [] \<and>
         voice_history body (run evs st') =
           failure 404 ''Session not found'' (run evs st') [] \<and>
         voice_stop body (run evs st') =
           failure 404 ''Session not found'' (run evs st') []"
proof -
  have "map_of st' sid = None"
    using assms(2)
  proof
    assume stop: "carries_id body0 sid \<and> resp (voice_stop body0 st) = StopOk \<and>
          st' = sessions (voice_stop body0 st)"
    then obtain b where "destructure ''session_id'' body0 = Inr b" "truthy (field b ''session_id'')"
      "Option.bind (field b ''session_id'') (sessions_get st) =
         (case map_of st sid of None \<Rightarrow> None | Some s \<Rightarrow> Some (sid, s))"
      using carries_id_read [of body0 sid "''session_id''" st] by auto
    then have "st' = AList.delete sid st"
      using stop
      by (cases "map_of st sid") (auto simp: voice_stop_def failure_def)
    then show ?thesis by (simp add: delete_conv)
  next
    assume "map_of st sid = Some s \<and> maxAge < t - lastActivity s \<and> st' = cleanupOldSessions t st"
    then show ?thesis by (simp add: cleanup_stale)
  qed
  then have "map_of (run evs st') sid = None"
    using assms(3) by (rule run_absent)
  with assms(1) show ?thesis by (rule absent_not_found)
qed

theorem deleted_session_not_found_witness:
  "voice_start demo_env (with_id ''s1'')
      (run [(demo_env, History (with_id ''s1''))] (sessions (voice_stop (with_id ''s1'') demo_store))) =
     failure 404 ''Session not found or expired'' [] [] \<and>
   voice_process demo_env (with_id ''s1'') (Some [7]) (run [] (cleanupOldSessions 1801001 demo_store)) =
     failure 404 ''Session not found or expired'' [] [] \<and>
   voice_history (with_id ''s1'') (run [] (cleanupOldSessions 1801001 demo_store)) =
     failure 404 ''Session not found'' [] [] \<and>
   voice_stop (with_id ''s1'')
      (run [(demo_env, History (with_id ''s1''))] (sessions (voice_stop (with_id ''s1'') demo_store))) =
     failure 404 ''Session not found'' [] []"
  using deleted_session_not_found [where body = "with_id ''s1''" and sid = "''s1''"
      and body0 = "with_id ''s1''" and st = demo_store
      and st' = "sessions (voice_stop (with_id ''s1'') demo_store)"
      and evs = "[(demo_env, History (with_id ''s1''))]" and e = demo_env and audio = "[7]"]
    deleted_session_not_found [where body = "with_id ''s1''" and sid = "''s1''"
      and st = demo_store and st' = "cleanupOldSessions 1801001 demo_store"
      and s = demo_session and t = 1801001 and evs = "[]" and e = demo_env and audio = "[7]"]
  by (simp add: carries_id_def with_id_def destructure_def voice_stop_def voice_history_def
      demo_store_def demo_session_def cleanupOldSessions_def maxAge_def failure_def AList.delete_eq)

text \<open>
  C4. Let a session's \<open>lastActivity\<close> be \<open>L\<close>, not before the start \<open>t0\<close> of
  the sweep timer. The first sweep after \<open>L + maxAge\<close> runs at most one
  \<open>sweepInterval\<close> later, and it removes the id from any table in which the id still
  holds a session with that \<open>lastActivity\<close>. A sweep at an instant \<open>t\<close> with
  \<open>t - lastActivity \<le> maxAge\<close> leaves the session in the table (the keys of the
  table being distinct, as the keys of a Map are).
\<close>

theorem sweep_expires_idle:
  "(t0 \<le> L \<longrightarrow>
      L + maxAge < sweepInstant t0 (nextSweep t0 (L + maxAge)) \<and>
      sweepInstant t0 (nextSweep t0 (L + maxAge)) \<le> L + maxAge + sweepInterval \<and>
      (\<forall>st s. map_of st sid = Some s \<and> lastActivity s = L \<longrightarrow>
         map_of (cleanupOldSessions (sweepInstant t0 (nextSweep t0 (L + maxAge))) st) sid = None)) \<and>
   (distinct (map fst st) \<and> map_of st sid = Some s \<and> t - lastActivity s \<le> maxAge \<longrightarrow>
      map_of (cleanupOldSessions t st) sid = Some s)"
proof (intro conjI impI)
  assume t0: "t0 \<le> L"
  let ?T = "L + maxAge"
  let ?q = "(?T - t0) div sweepInterval"
  have pos: "0 < sweepInterval" by (simp add: sweepInterval_def)
  have "0 \<le> ?T - t0" using t0 by (simp add: maxAge_def)
  then have q0: "0 \<le> ?q" using pos by (simp add: pos_imp_zdiv_nonneg_iff)
  have inst: "sweepInstant t0 (nextSweep t0 ?T) = t0 + (?q + 1) * sweepInterval"
    using q0 by (simp add: sweepInstant_def nextSweep_def)
  let ?r = "(?T - t0) mod sweepInterval"
  have dm: "?T - t0 = sweepInterval * ?q + ?r" by simp
  have r0: "0 \<le> ?r" and r1: "?r < sweepInterval" using pos by simp_all
  have expand: "(?q + 1) * sweepInterval = sweepInterval * ?q + sweepInterval"
    by (simp add: algebra_simps)
  have low: "sweepInterval * ?q \<le> ?T - t0" using dm r0 by linarith
  have up: "?T - t0 < sweepInterval * ?q + sweepInterval" using dm r1 by linarith
  show after: "?T < sweepInstant t0 (nextSweep t0 ?T)"
    using up inst expand by linarith
  show "sweepInstant t0 (nextSweep t0 ?T) \<le> ?T + sweepInterval"
    using low inst expand by linarith
  show "\<forall>st s. map_of st sid = Some s \<and> lastActivity s = L \<longrightarrow>
         map_of (cleanupOldSessions (sweepInstant t0 (nextSweep t0 ?T)) st) sid = None"
    using after by (auto intro!: cleanup_stale)
next
  assume "distinct (map fst st) \<and> map_of st sid = Some s \<and> t - lastActivity s \<le> maxAge"
  then show "map_of (cleanupOldSessions t st) sid = Some s"
    by (simp add: cleanup_fresh)
qed

theorem sweep_expires_idle_witness:
  "1000 + maxAge < sweepInstant 0 (nextSweep 0 (1000 + maxAge)) \<and>
   sweepInstant 0 (nextSweep 0 (1000 + maxAge)) = 2100000 \<and>
   map_of (cleanupOldSessions 2100000 demo_store) ''s1'' = None \<and>
   map_of (cleanupOldSessions 1801000 demo_store) ''s1'' = Some demo_session"
  using sweep_expires_idle [of 0 1000 "''s1''" demo_store demo_session 1801000]
  by (simp add: demo_store_def demo_session_def maxAge_def sweepInterval_def
      sweepInstant_def nextSweep_def)

text \<open>
  C5, as the claim states it, fails for history: a history request that is answered
  with success leaves the session's \<open>lastActivity\<close> as it was, here 1000 at clock
  time 5000.
\<close>

theorem history_touch_counterexample:
  "resp (voice_history (with_id ''s1'') demo_store) = HistoryOk [] \<and>
   map_of (step (demo_env\<lparr>now := 5000\<rparr>) (History (with_id ''s1'')) demo_store) ''s1'' =
     Some demo_session \<and>
   lastActivity demo_session \<noteq> now (demo_env\<lparr>now := 5000\<rparr>)"
  by (simp add: voice_history_def with_id_def destructure_def demo_store_def demo_session_def
      demo_system_def)

text \<open>
  C5, amended. A start on a session in the table, and a process that passes validation
  on an active session, set that session's \<open>lastActivity\<close> to the current time
  (whether or not an external service fails afterwards). History changes nothing in
  the table. Whether a sweep at time \<open>t\<close> removes a session depends on its
  \<open>lastActivity\<close> alone: it is removed exactly when \<open>t - lastActivity > maxAge\<close>.
\<close>

theorem touch_on_start_and_process:
  "(carries_id body sid \<and> map_of st sid = Some s \<longrightarrow>
      (\<exists>s'. map_of (sessions (voice_start e body st)) sid = Some s' \<and> lastActivity s' = now e)) \<and>
   (carries_id body sid \<and> upload = Some audio \<and> map_of st sid = Some s \<and> active s \<longrightarrow>
      (\<exists>s'. map_of (sessions (voice_process e body upload st)) sid = Some s' \<and>
           lastActivity s' = now e)) \<and>
   sessions (voice_history body st) = st \<and>
   (distinct (map fst st) \<and> map_of st sid = Some s \<longrightarrow>
      (map_of (cleanupOldSessions t st) sid = None) = (maxAge < t - lastActivity s))"
proof (intro conjI impI)
  assume h: "carries_id body sid \<and> map_of st sid = Some s"
  then show "\<exists>s'. map_of (sessions (voice_start e body st)) sid = Some s' \<and> lastActivity s' = now e"
    using start_store [of body sid st s e] by (simp add: update_conv)
next
  assume h: "carries_id body sid \<and> upload = Some audio \<and> map_of st sid = Some s \<and> active s"
  then obtain extra where
    "sessions (voice_process e body upload st) =
       AList.update sid
         (s\<lparr>lastActivity := now e, conversationHistory := conversationHistory s @ extra\<rparr>) st"
    using process_store [of body sid upload audio st s e] by blast
  then show "\<exists>s'. map_of (sessions (voice_process e body upload st)) sid = Some s' \<and>
           lastActivity s' = now e"
    by (simp add: update_conv)
next
  show "sessions (voice_history body st) = st" by (rule history_sessions)
next
  assume h: "distinct (map fst st) \<and> map_of st sid = Some s"
  show "(map_of (cleanupOldSessions t st) sid = None) = (maxAge < t - lastActivity s)"
  proof (cases "maxAge < t - lastActivity s")
    case True
    then show ?thesis using h by (simp add: cleanup_stale)
  next
    case False
    then show ?thesis using h by (simp add: cleanup_fresh)
  qed
qed

theorem touch_on_start_and_process_witness:
  "map_of (sessions (voice_start (demo_env\<lparr>now := 5000\<rparr>) (with_id ''s1'') demo_store)) ''s1'' =
     Some (demo_session\<lparr>active := True, lastActivity := 5000,
        conversationHistory := [demo_system, \<lparr>role = ''assistant'', content = initialGreeting\<rparr>]\<rparr>) \<and>
   lastActivity (the (map_of (sessions (voice_process (demo_env\<lparr>now := 7000\<rparr>) (with_id ''s1'') (Some [7])
        demo_active)) ''s1'')) = 7000 \<and>
   (map_of (cleanupOldSessions 1801001 demo_store) ''s1'' = None)"
  using touch_on_start_and_process [where body = "with_id ''s1''" and sid = "''s1''"
      and st = demo_store and s = demo_session and e = "demo_env\<lparr>now := 5000\<rparr>"
      and upload = None and t = 1801001]
    touch_on_start_and_process [where body = "with_id ''s1''" and sid = "''s1''"
      and st = demo_active and s = "demo_session\<lparr>active := True\<rparr>"
      and e = "demo_env\<lparr>now := 7000\<rparr>" and upload = "Some [7]" and audio = "[7]" and t = 0]
  by (simp add: carries_id_def with_id_def destructure_def voice_start_def voice_process_def
      demo_env_def demo_store_def demo_active_def
      demo_session_def demo_system_def generateSpeech_def getChatCompletion_def
      transcribeAudio_def supportedFormats_def Let_def maxAge_def)

text \<open>
  C6. Let transcription succeed in a process on an active session. If the chat
  completion then fails, the answer is 500 and the session keeps the appended user
  turn; if the chat completion succeeds and speech synthesis fails, the answer is 500
  and the session keeps the user turn and the assistant turn. A history call after
  the failure returns these turns after the earlier ones.
\<close>

theorem failed_process_keeps_user_turn:
  assumes "carries_id body sid" and "map_of st sid = Some s" and "active s"
    and "fst (transcribeAudio e audio) = Inr transcription"
  shows "(chat e (conversationHistory s @ [\<lparr>role = ''user'', content = transcription\<rparr>]) = Inl err \<longrightarrow>
            resp (voice_process e body (Some audio) st) = Failure 500 err \<and>
            map_of (sessions (voice_process e body (Some audio) st)) sid =
              Some (s\<lparr>lastActivity := now e,
                      conversationHistory := conversationHistory s @
                        [\<lparr>role = ''user'', content = transcription\<rparr>]\<rparr>) \<and>
            resp (voice_history body (sessions (voice_process e body (Some audio) st))) =
              HistoryOk (filter (\<lambda>m. role m \<noteq> ''system'') (conversationHistory s) @
                [\<lparr>role = ''user'', content = transcription\<rparr>])) \<and>
         (chat e (conversationHistory s @ [\<lparr>role = ''user'', content = transcription\<rparr>]) = Inr aiResponse \<and>
          fst (generateSpeech e aiResponse (gender s)) = Inl err \<longrightarrow>
            resp (voice_process e body (Some audio) st) = Failure 500 err \<and>
            map_of (sessions (voice_process e body (Some audio) st)) sid =
              Some (s\<lparr>lastActivity := now e,
                      conversationHistory := conversationHistory s @
                        [\<lparr>role = ''user'', content = transcription\<rparr>,
                         \<lparr>role = ''assistant'', content = aiResponse\<rparr>]\<rparr>) \<and>
            resp (voice_history body (sessions (voice_process e body (Some audio) st))) =
              HistoryOk (filter (\<lambda>m. role m \<noteq> ''system'') (conversationHistory s) @
                [\<lparr>role = ''user'', content = transcription\<rparr>,
                 \<lparr>role = ''assistant'', content = aiResponse\<rparr>]))"
proof -
  obtain c1 where tr: "transcribeAudio e audio = (Inr transcription, c1)"
    using assms(4) by (cases "transcribeAudio e audio") auto
  obtain b where rd: "destructure ''session_id'' body = Inr b" "truthy (field b ''session_id'')"
    "field b ''session_id'' = Some (JStr sid)"
    using carries_id_read [OF assms(1), of "''session_id''" st] by auto
  show ?thesis
    using assms(2,3) tr rd
    by (auto simp: voice_process_def voice_history_def failure_def Let_def getChatCompletion_def
        update_conv copy_turns split: prod.splits sum.splits)
qed

theorem failed_process_keeps_user_turn_witness:
  "resp (voice_history (with_id ''s1'')
      (sessions (voice_process failing_chat_env (with_id ''s1'') (Some [7]) demo_active))) =
     HistoryOk [\<lparr>role = ''user'', content = ''What brings you in?''\<rparr>] \<and>
   resp (voice_process failing_chat_env (with_id ''s1'') (Some [7]) demo_active) = Failure 500 ''timeout'' \<and>
   resp (voice_history (with_id ''s1'')
      (sessions (voice_process failing_speech_env (with_id ''s1'') (Some [7]) demo_active))) =
     HistoryOk [\<lparr>role = ''user'', content = ''What brings you in?''\<rparr>,
                \<lparr>role = ''assistant'', content = ''Chest pain.''\<rparr>] \<and>
   resp (voice_process failing_speech_env (with_id ''s1'') (Some [7]) demo_active) = Failure 500 ''quota''"
  using failed_process_keeps_user_turn [where body = "with_id ''s1''" and sid = "''s1''"
      and st = demo_active and s = "demo_session\<lparr>active := True\<rparr>" and e = failing_chat_env
      and audio = "[7]" and transcription = "''What brings you in?''" and err = "''timeout''"]
    failed_process_keeps_user_turn [where body = "with_id ''s1''" and sid = "''s1''"
      and st = demo_active and s = "demo_session\<lparr>active := True\<rparr>" and e = failing_speech_env
      and audio = "[7]" and transcription = "''What brings you in?''" and err = "''quota''"
      and aiResponse = "''Chest pain.''"]
  by (simp add: carries_id_def with_id_def demo_active_def demo_session_def demo_system_def
      failing_chat_env_def failing_speech_env_def demo_env_def transcribeAudio_def
      supportedFormats_def generateSpeech_def)

text \<open>
  C7. For a session in the table, history answers with exactly the turns of the
  transcript whose role is not system, in transcript order, each as a role and a
  content, and changes nothing. In a table that the server has built from the empty
  one, the transcript is its system turn followed by exactly the turns that history
  returns, whatever its length.
\<close>

theorem history_excludes_system:
  assumes "carries_id body sid" and "map_of st sid = Some s"
  shows "voice_history body st =
           \<lparr>resp = HistoryOk (filter (\<lambda>m. role m \<noteq> ''system'') (conversationHistory s)),
            sessions = st, calls = []\<rparr> \<and>
         (st = run evs [] \<longrightarrow>
            (\<exists>sys. role sys = ''system'' \<and>
               conversationHistory s =
                 sys # filter (\<lambda>m. role m \<noteq> ''system'') (conversationHistory s)))"
proof
  obtain b where "destructure ''session_id'' body = Inr b" "truthy (field b ''session_id'')"
    "Option.bind (field b ''session_id'') (sessions_get st) = Some (sid, s)"
    using carries_id_read [OF assms(1), of "''session_id''" st] assms(2) by auto
  then show "voice_history body st =
           \<lparr>resp = HistoryOk (filter (\<lambda>m. role m \<noteq> ''system'') (conversationHistory s)),
            sessions = st, calls = []\<rparr>"
    by (simp add: voice_history_def copy_turns)
next
  show "st = run evs [] \<longrightarrow>
            (\<exists>sys. role sys = ''system'' \<and>
               conversationHistory s =
                 sys # filter (\<lambda>m. role m \<noteq> ''system'') (conversationHistory s))"
  proof
    assume "st = run evs []"
    then have "session_ok s"
      using assms(2) run_from_empty_ok by blast
    then have "transcript_ok (conversationHistory s)" by (simp add: session_ok_def)
    then show "\<exists>sys. role sys = ''system'' \<and>
               conversationHistory s =
                 sys # filter (\<lambda>m. role m \<noteq> ''system'') (conversationHistory s)"
      by (rule transcript_ok_filter)
  qed
qed

theorem history_excludes_system_witness:
  "resp (voice_history (with_id ''s1'') (run demo_run [])) =
     HistoryOk
       [\<lparr>role = ''assistant'', content = initialGreeting\<rparr>,
        \<lparr>role = ''user'', content = ''What brings you in?''\<rparr>,
        \<lparr>role = ''assistant'', content = ''Chest pain.''\<rparr>]"
  using history_excludes_system [where body = "with_id ''s1''" and sid = "''s1''"
      and st = "run demo_run []" and evs = demo_run and s = "demo_session\<lparr>active := True,
         conversationHistory :=
           [demo_system,
            \<lparr>role = ''assistant'', content = initialGreeting\<rparr>,
            \<lparr>role = ''user'', content = ''What brings you in?''\<rparr>,
            \<lparr>role = ''assistant'', content = ''Chest pain.''\<rparr>]\<rparr>"]
  by (simp add: demo_run_store demo_system_def initialGreeting_def carries_id_def with_id_def)

text \<open>
  C8. An init that answers with success stores under the new id a session whose
  transcript is the single system turn, not active, with \<open>lastActivity\<close> the current
  time. Through any later events that do not issue the same id again, whenever the
  id is in the table its transcript starts with that system turn, and the transcript
  at an earlier point of the run is a prefix of the transcript at a later point:
  turns are only appended, none is removed or moved.
\<close>

theorem transcript_system_first:
  assumes "resp (voice_init e body st) = InitOk sid"
    and "list_all (\<lambda>x. \<not> reissues sid x) (evs1 @ evs2)"
    and "map_of (run evs1 (sessions (voice_init e body st))) sid = Some s1"
    and "map_of (run (evs1 @ evs2) (sessions (voice_init e body st))) sid = Some s2"
  shows "\<exists>s0 sys. map_of (sessions (voice_init e body st)) sid = Some s0 \<and>
           conversationHistory s0 = [sys] \<and> role sys = ''system'' \<and>
           \<not> active s0 \<and> lastActivity s0 = now e \<and>
           prefix [sys] (conversationHistory s1) \<and>
           prefix (conversationHistory s1) (conversationHistory s2)"
proof -
  let ?st0 = "sessions (voice_init e body st)"
  obtain g oid d where st0: "?st0 =
             AList.update sid
               \<lparr>gender = g, osce_id = oid,
                conversationHistory = [\<lparr>role = ''system'', content = getPatientPrompt e d\<rparr>],
                active = False, lastActivity = now e\<rparr> st"
    using init_created [OF assms(1)] by blast
  let ?s0 = "\<lparr>gender = g, osce_id = oid,
                conversationHistory = [\<lparr>role = ''system'', content = getPatientPrompt e d\<rparr>],
                active = False, lastActivity = now e\<rparr>"
  have s0: "map_of ?st0 sid = Some ?s0" unfolding st0 by (simp add: update_conv)
  have nr1: "list_all (\<lambda>x. \<not> reissues sid x) evs1" and nr2: "list_all (\<lambda>x. \<not> reissues sid x) evs2"
    using assms(2) by simp_all
  have p1: "prefix (conversationHistory ?s0) (conversationHistory s1)"
    using run_prefix [OF s0 nr1 assms(3)] .
  have "map_of (run evs2 (run evs1 ?st0)) sid = Some s2"
    using assms(4) by (simp add: run_append)
  then have p2: "prefix (conversationHistory s1) (conversationHistory s2)"
    using run_prefix [OF assms(3) nr2] by blast
  show ?thesis
    using s0 p1 p2 by simp
qed

theorem transcript_system_first_witness:
  "(\<exists>s0 sys. map_of (sessions (voice_init demo_env (init_body (JStr ''Male'')) [])) ''s1'' = Some s0 \<and>
      conversationHistory s0 = [sys] \<and> role sys = ''system'' \<and> \<not> active s0 \<and>
      lastActivity s0 = now demo_env \<and>
      prefix [sys] (conversationHistory (demo_session\<lparr>active := True,
        conversationHistory := [demo_system, \<lparr>role = ''assistant'', content = initialGreeting\<rparr>]\<rparr>)) \<and>
      prefix (conversationHistory (demo_session\<lparr>active := True,
        conversationHistory := [demo_system, \<lparr>role = ''assistant'', content = initialGreeting\<rparr>]\<rparr>))
        (conversationHistory (demo_session\<lparr>active := True,
         conversationHistory :=
           [demo_system,
            \<lparr>role = ''assistant'', content = initialGreeting\<rparr>,
            \<lparr>role = ''user'', content = ''What brings you in?''\<rparr>,
            \<lparr>role = ''assistant'', content = ''Chest pain.''\<rparr>]\<rparr>)))"
  using transcript_system_first [where e = demo_env and body = "init_body (JStr ''Male'')"
      and st = "[]" and sid = "''s1''"
      and ?evs1.0 = "[(demo_env, Start (with_id ''s1''))]"
      and ?evs2.0 = "[(demo_env, Process (with_id ''s1'') (Some [7]))]"
      and ?s1.0 = "demo_session\<lparr>active := True,
        conversationHistory := [demo_system, \<lparr>role = ''assistant'', content = initialGreeting\<rparr>]\<rparr>"
      and ?s2.0 = "demo_session\<lparr>active := True,
         conversationHistory :=
           [demo_system,
            \<lparr>role = ''assistant'', content = initialGreeting\<rparr>,
            \<lparr>role = ''user'', content = ''What brings you in?''\<rparr>,
            \<lparr>role = ''assistant'', content = ''Chest pain.''\<rparr>]\<rparr>"]
  by (simp add: init_body_def with_id_def destructure_def voice_init_def voice_start_def
      voice_process_def
      demo_env_def demo_session_def demo_system_def generateSpeech_def getChatCompletion_def
      transcribeAudio_def supportedFormats_def getPatientPrompt_def Let_def)

text \<open>
  C10. Start on a session in the table does not look at the session's state: the
  answer is the success payload, or 500 when speech synthesis fails, never 400 or
  404, also when the session is already active. Each such call sets active and
  appends one assistant greeting turn, so after \<open>n\<close> start calls in a row the
  transcript is the earlier one followed by \<open>n\<close> greeting turns.
\<close>

theorem start_repeatable:
  assumes "carries_id body sid" and "map_of st sid = Some s"
  shows "resp (voice_start e body st) =
           (case fst (generateSpeech e initialGreeting (gender s)) of
              Inl err \<Rightarrow> Failure 500 err
            | Inr audioBuffer \<Rightarrow> StartOk (toBase64 e audioBuffer) initialGreeting) \<and>
         (\<exists>s'. map_of (sessions (voice_start e body st)) sid = Some s' \<and> active s' \<and>
            conversationHistory s' = conversationHistory s @
              [\<lparr>role = ''assistant'', content = initialGreeting\<rparr>]) \<and>
         (es \<noteq> [] \<longrightarrow>
           (\<exists>s'. map_of (run (map (\<lambda>e. (e, Start body)) es) st) sid = Some s' \<and> active s' \<and>
              conversationHistory s' = conversationHistory s @
                replicate (length es) \<lparr>role = ''assistant'', content = initialGreeting\<rparr>))"
proof (intro conjI)
  obtain b where "destructure ''session_id'' body = Inr b" "truthy (field b ''session_id'')"
    "Option.bind (field b ''session_id'') (sessions_get st) = Some (sid, s)"
    using carries_id_read [OF assms(1), of "''session_id''" st] assms(2) by auto
  then show "resp (voice_start e body st) =
           (case fst (generateSpeech e initialGreeting (gender s)) of
              Inl err \<Rightarrow> Failure 500 err
            | Inr audioBuffer \<Rightarrow> StartOk (toBase64 e audioBuffer) initialGreeting)"
    by (auto simp: voice_start_def failure_def Let_def split: sum.splits prod.splits)
next
  from start_store [OF assms, of e]
  show "\<exists>s'. map_of (sessions (voice_start e body st)) sid = Some s' \<and> active s' \<and>
            conversationHistory s' = conversationHistory s @
              [\<lparr>role = ''assistant'', content = initialGreeting\<rparr>]"
    by (simp add: update_conv)
next
  show "es \<noteq> [] \<longrightarrow>
           (\<exists>s'. map_of (run (map (\<lambda>e. (e, Start body)) es) st) sid = Some s' \<and> active s' \<and>
              conversationHistory s' = conversationHistory s @
                replicate (length es) \<lparr>role = ''assistant'', content = initialGreeting\<rparr>)"
    using starts_session [OF assms, of es] by simp
qed

theorem start_repeatable_witness:
  "resp (voice_start demo_env (with_id ''s1'') demo_active) = StartOk ''AQID'' initialGreeting \<and>
   (\<exists>s'. map_of (run (map (\<lambda>e. (e, Start (with_id ''s1''))) [demo_env, demo_env, failing_speech_env])
        demo_active) ''s1'' = Some s' \<and> active s' \<and>
      conversationHistory s' =
        [demo_system,
         \<lparr>role = ''assistant'', content = initialGreeting\<rparr>,
         \<lparr>role = ''assistant'', content = initialGreeting\<rparr>,
         \<lparr>role = ''assistant'', content = initialGreeting\<rparr>])"
  using start_repeatable [where body = "with_id ''s1''" and sid = "''s1''" and st = demo_active
      and s = "demo_session\<lparr>active := True\<rparr>" and e = demo_env
      and es = "[demo_env, demo_env, failing_speech_env]"]
  by (simp add: carries_id_def with_id_def demo_active_def demo_session_def demo_env_def
      generateSpeech_def)

lemma start_calls:
  assumes "carries_id body sid" and "map_of st sid = Some s"
  shows "calls (voice_start e body st) = snd (generateSpeech e initialGreeting (gender s))"
proof -
  obtain b where "destructure ''session_id'' body = Inr b" "truthy (field b ''session_id'')"
    "Option.bind (field b ''session_id'') (sessions_get st) = Some (sid, s)"
    using carries_id_read [OF assms(1), of "''session_id''" st] assms(2) by auto
  then show ?thesis
    by (auto simp: voice_start_def failure_def Let_def split: sum.splits prod.splits)
qed

lemma process_calls:
  assumes "carries_id body sid" and "map_of st sid = Some s" and "active s"
    and "transcribeAudio e audio = (Inr transcription, c1)"
    and "chat e (conversationHistory s @ [\<lparr>role = ''user'', content = transcription\<rparr>]) = Inr aiResponse"
  shows "calls (voice_process e body (Some audio) st) =
           c1 @ [ChatCompletion (conversationHistory s @ [\<lparr>role = ''user'', content = transcription\<rparr>])] @
           snd (generateSpeech e aiResponse (gender s))"
proof -
  obtain b where "destructure ''session_id'' body = Inr b" "truthy (field b ''session_id'')"
    "Option.bind (field b ''session_id'') (sessions_get st) = Some (sid, s)"
    using carries_id_read [OF assms(1), of "''session_id''" st] assms(2) by auto
  then show ?thesis
    using assms(3-5)
    by (auto simp: voice_process_def failure_def Let_def getChatCompletion_def
        split: sum.splits prod.splits)
qed

text \<open>
  C9, as the claim states it, fails: init checks only that the gender field is
  truthy (and can be printed), so a request with gender "Other" creates a session
  whose gender is "Other", neither "Male" nor "Female".
\<close>

theorem init_gender_counterexample:
  "resp (voice_init demo_env (init_body (JStr ''Other'')) []) = InitOk ''s1'' \<and>
   map_of (sessions (voice_init demo_env (init_body (JStr ''Other'')) [])) ''s1'' =
     Some (demo_session\<lparr>gender := JStr ''Other''\<rparr>) \<and>
   gender (demo_session\<lparr>gender := JStr ''Other''\<rparr>) \<noteq> JStr ''Male'' \<and>
   gender (demo_session\<lparr>gender := JStr ''Other''\<rparr>) \<noteq> JStr ''Female''"
  by (simp add: voice_init_def init_body_def destructure_def demo_env_def demo_session_def
      demo_system_def getPatientPrompt_def)

text \<open>
  C9, amended. An init that answers with success stores the value of the request's
  gender field, a truthy JSON value, unchanged; a session keeps its gender through
  every later event for as long as its id is in the table (and not issued again). In
  every table that the server has built from the empty one, each session's gender is
  the gender field of an init request of the run, is truthy, and converts to a
  property key. Start, and a process whose chat
  completion has answered, call speech synthesis once, with the voice selected by the
  key that the stored gender converts to: the keys "Male" and "Female" select their
  own voice ids, the name of a property inherited from Object.prototype selects that
  property, which is no voice id, and every other key selects the voice id of "Male".
\<close>

theorem gender_kept_and_selects_voice:
  "(resp (voice_init e body st) = InitOk sid \<longrightarrow>
      (\<exists>b g s. body = Some b \<and> field b ''gender'' = Some g \<and> truthy (Some g) \<and>
         map_of (sessions (voice_init e body st)) sid = Some s \<and> gender s = g)) \<and>
   (map_of st sid = Some s \<and> list_all (\<lambda>x. \<not> reissues sid x) evs \<and>
    map_of (run evs st) sid = Some s' \<longrightarrow> gender s' = gender s) \<and>
   (map_of (run evs []) sid = Some s \<longrightarrow>
      truthy (Some (gender s)) \<and> (\<exists>k. js_toString (gender s) = Some k) \<and>
      list_ex (\<lambda>x. init_gender (snd x) = Some (gender s)) evs) \<and>
   (carries_id req sid \<and> map_of st sid = Some s \<and> js_toString (gender s) = Some key \<longrightarrow>
      calls (voice_start e req st) = [TextToSpeech (voiceId key) initialGreeting]) \<and>
   (carries_id req sid \<and> map_of st sid = Some s \<and> active s \<and>
    js_toString (gender s) = Some key \<and> transcribeAudio e audio = (Inr transcription, c1) \<and>
    chat e (conversationHistory s @ [\<lparr>role = ''user'', content = transcription\<rparr>]) = Inr aiResponse \<longrightarrow>
      calls (voice_process e req (Some audio) st) =
        c1 @ [ChatCompletion (conversationHistory s @ [\<lparr>role = ''user'', content = transcription\<rparr>]),
              TextToSpeech (voiceId key) aiResponse]) \<and>
   voiceId ''Male'' = VoiceId ''pNInz6obpgDQGcFmaJgB'' \<and>
   voiceId ''Female'' = VoiceId ''EXAVITQu4vr4xnSDxMaL'' \<and>
   (key \<in> set Object_prototype_names \<longrightarrow> voiceId key = InheritedProperty key) \<and>
   (key \<noteq> ''Male'' \<and> key \<noteq> ''Female'' \<and> key \<notin> set Object_prototype_names \<longrightarrow>
      voiceId key = VoiceId ''pNInz6obpgDQGcFmaJgB'')"
proof (intro conjI impI)
  assume ok: "resp (voice_init e body st) = InitOk sid"
  obtain b g oid d where c: "body = Some b" "field b ''gender'' = Some g" "gender_ok g"
    "sessions (voice_init e body st) =
             AList.update sid
               \<lparr>gender = g, osce_id = oid,
                conversationHistory = [\<lparr>role = ''system'', content = getPatientPrompt e d\<rparr>],
                active = False, lastActivity = now e\<rparr> st"
    using init_created [OF ok] by blast
  have "truthy (Some g)" using c(3) by (simp add: gender_ok_def)
  then show "\<exists>b g s. body = Some b \<and> field b ''gender'' = Some g \<and> truthy (Some g) \<and>
         map_of (sessions (voice_init e body st)) sid = Some s \<and> gender s = g"
    using c(1,2) unfolding c(4) by (simp add: update_conv)
next
  assume "map_of st sid = Some s \<and> list_all (\<lambda>x. \<not> reissues sid x) evs \<and>
    map_of (run evs st) sid = Some s'"
  then have "extends s s'" using run_extends by blast
  then show "gender s' = gender s" by (simp add: extends_def)
next
  assume live: "map_of (run evs []) sid = Some s"
  then have ok: "session_ok s" by (rule run_from_empty_ok)
  show "truthy (Some (gender s))"
    using ok by (simp add: session_ok_def gender_ok_def)
  show "\<exists>k. js_toString (gender s) = Some k"
    using ok by (auto simp: session_ok_def gender_ok_def)
  show "list_ex (\<lambda>x. init_gender (snd x) = Some (gender s)) evs"
    using run_gender_source [OF live] by simp
next
  assume "carries_id req sid \<and> map_of st sid = Some s \<and> js_toString (gender s) = Some key"
  then show "calls (voice_start e req st) = [TextToSpeech (voiceId key) initialGreeting]"
    using start_calls [of req sid st s e] by (simp add: generateSpeech_def)
next
  assume "carries_id req sid \<and> map_of st sid = Some s \<and> active s \<and>
    js_toString (gender s) = Some key \<and> transcribeAudio e audio = (Inr transcription, c1) \<and>
    chat e (conversationHistory s @ [\<lparr>role = ''user'', content = transcription\<rparr>]) = Inr aiResponse"
  then show "calls (voice_process e req (Some audio) st) =
        c1 @ [ChatCompletion (conversationHistory s @ [\<lparr>role = ''user'', content = transcription\<rparr>]),
              TextToSpeech (voiceId key) aiResponse]"
    using process_calls [of req sid st s e audio transcription c1 aiResponse]
    by (simp add: generateSpeech_def)
next
  show "voiceId ''Male'' = VoiceId ''pNInz6obpgDQGcFmaJgB''"
    by (simp add: voiceId_def voices_property_def ELEVENLABS_VOICES_def)
next
  show "voiceId ''Female'' = VoiceId ''EXAVITQu4vr4xnSDxMaL''"
    by (simp add: voiceId_def voices_property_def ELEVENLABS_VOICES_def)
next
  assume "key \<in> set Object_prototype_names"
  then show "voiceId key = InheritedProperty key"
    by (auto simp: voiceId_def voices_property_def ELEVENLABS_VOICES_def Object_prototype_names_def)
next
  assume "key \<noteq> ''Male'' \<and> key \<noteq> ''Female'' \<and> key \<notin> set Object_prototype_names"
  then show "voiceId key = VoiceId ''pNInz6obpgDQGcFmaJgB''"
    by (simp add: voiceId_def voices_property_def ELEVENLABS_VOICES_def)
qed

theorem gender_kept_and_selects_voice_witness:
  "map_of female_list_store ''s1'' = Some (demo_session\<lparr>gender := JArr [JStr ''Female'']\<rparr>) \<and>
   map_of (run [(demo_env, Start (with_id ''s1''))] female_list_store) ''s1'' =
     Some (demo_session\<lparr>gender := JArr [JStr ''Female''], active := True,
        conversationHistory := [demo_system, \<lparr>role = ''assistant'', content = initialGreeting\<rparr>]\<rparr>) \<and>
   calls (voice_start demo_env (with_id ''s1'') female_list_store) =
     [TextToSpeech (VoiceId ''EXAVITQu4vr4xnSDxMaL'') initialGreeting] \<and>
   calls (voice_process demo_env (with_id ''s1'') (Some [7])
       [(''s1'', demo_session\<lparr>gender := JStr ''Other'', active := True\<rparr>)]) =
     [Whisper ''webm'' [7],
      ChatCompletion [demo_system, \<lparr>role = ''user'', content = ''What brings you in?''\<rparr>],
      TextToSpeech (VoiceId ''pNInz6obpgDQGcFmaJgB'') ''Chest pain.''] \<and>
   voiceId ''toString'' = InheritedProperty ''toString''"
  using gender_kept_and_selects_voice [where e = demo_env
      and body = "init_body (JArr [JStr ''Female''])" and st = "[]" and sid = "''s1''"
      and evs = "[(demo_env, Init (init_body (JArr [JStr ''Female''])))]"
      and s = "demo_session\<lparr>gender := JArr [JStr ''Female'']\<rparr>" and key = "''toString''"]
    gender_kept_and_selects_voice [where e = demo_env and st = female_list_store and sid = "''s1''"
      and s = "demo_session\<lparr>gender := JArr [JStr ''Female'']\<rparr>"
      and evs = "[(demo_env, Start (with_id ''s1''))]"
      and s' = "demo_session\<lparr>gender := JArr [JStr ''Female''], active := True,
        conversationHistory := [demo_system, \<lparr>role = ''assistant'', content = initialGreeting\<rparr>]\<rparr>"
      and req = "with_id ''s1''" and key = "''Female''"]
    gender_kept_and_selects_voice [where e = demo_env
      and st = "[(''s1'', demo_session\<lparr>gender := JStr ''Other'', active := True\<rparr>)]"
      and sid = "''s1''" and s = "demo_session\<lparr>gender := JStr ''Other'', active := True\<rparr>"
      and req = "with_id ''s1''" and key = "''Other''" and audio = "[7]"
      and transcription = "''What brings you in?''" and ?c1.0 = "[Whisper ''webm'' [7]]"
      and aiResponse = "''Chest pain.''"]
  by (simp add: female_list_store_def init_body_def with_id_def carries_id_def destructure_def
      voice_init_def voice_start_def
      demo_env_def demo_session_def demo_system_def generateSpeech_def getPatientPrompt_def
      transcribeAudio_def supportedFormats_def Object_prototype_names_def Let_def)

end
